theory Spec2Isabelle
  imports Complex_Main
begin

section \<open>Errors and logging\<close>

text \<open>
  The exceptions of \<^verbatim>\<open>abipy/flowtk/tasks.py\<close> and \<^verbatim>\<open>abipy/flowtk/utils.py\<close> that the
  modelled functions raise. A function that may raise returns a sum, \<open>Inl\<close> the exception.
\<close>

datatype error =
    RuntimeError
  | ValueError
  | TypeError
  | KeyError
  | OSError
  | ZeroDivisionError
  | TaskRestartError
  | ManagerIncreaseError
  | FixQueueCriticalError
  | DecreaseDemandsError
  | TaskError
  | QueueAdapterError
  | IndexError

text \<open>
  Floating point numbers of the source (efficiencies, memory sizes, time stamps) are modelled
  as exact rationals: comparisons and the arithmetic of the source are kept, rounding is not
  modelled.
\<close>

section \<open>Parallel configurations (\<^verbatim>\<open>ParalConf\<close>, \<^verbatim>\<open>ParalHints\<close>)\<close>

text \<open>
  \<^verbatim>\<open>ParalConf\<close> is an \<^verbatim>\<open>AttrDict\<close> with the keys of the autoparal section; the defaults
  \<^verbatim>\<open>omp_ncpus = 1\<close>, \<^verbatim>\<open>mem_per_cpu = 0.0\<close>, \<^verbatim>\<open>vars = {}\<close> are filled in by the constructor.
\<close>

record ParalConf =
  mpi_ncpus :: int
  omp_ncpus :: int
  mem_per_cpu :: rat
  efficiency :: rat
  vars :: "(string \<times> int) list"

definition mpi_procs :: "ParalConf \<Rightarrow> int" where
  "mpi_procs c = mpi_ncpus c"

definition omp_threads :: "ParalConf \<Rightarrow> int" where
  "omp_threads c = omp_ncpus c"

definition num_cores :: "ParalConf \<Rightarrow> int" where
  "num_cores c = mpi_procs c * omp_threads c"

definition mem_per_proc :: "ParalConf \<Rightarrow> rat" where
  "mem_per_proc c = mem_per_cpu c"

definition speedup :: "ParalConf \<Rightarrow> rat" where
  "speedup c = efficiency c * of_int (num_cores c)"

text \<open>
  \<^verbatim>\<open>list.sort(key=..., reverse=...)\<close> is a stable sort; with \<^verbatim>\<open>reverse=True\<close> elements with
  equal keys keep their original order, which is what reversing, sorting stably and
  reversing again gives.
\<close>

definition py_sort :: "('a \<Rightarrow> rat) \<Rightarrow> bool \<Rightarrow> 'a list \<Rightarrow> 'a list" where
  "py_sort key reverse xs =
     (if reverse then rev (sort_key key (rev xs)) else sort_key key xs)"

definition sort_by_efficiency :: "bool \<Rightarrow> ParalConf list \<Rightarrow> ParalConf list" where
  "sort_by_efficiency reverse confs = py_sort efficiency reverse confs"

definition sort_by_speedup :: "bool \<Rightarrow> ParalConf list \<Rightarrow> ParalConf list" where
  "sort_by_speedup reverse confs = py_sort speedup reverse confs"

text \<open>
  \<^verbatim>\<open>sort_by_mem_per_proc\<close>: "Avoid sorting if mem_per_cpu is not available."
\<close>

definition sort_by_mem_per_proc :: "bool \<Rightarrow> ParalConf list \<Rightarrow> ParalConf list" where
  "sort_by_mem_per_proc reverse confs =
     (if list_ex (\<lambda>c. mem_per_proc c > 0) confs
      then py_sort mem_per_proc reverse confs
      else confs)"

section \<open>Conditions and the selection policy\<close>

datatype level = DEBUG | INFO | WARNING | CRITICAL

type_synonym log = "(level \<times> string) list"

text \<open>
  \<^verbatim>\<open>Condition\<close> of \<^verbatim>\<open>utils.py\<close> holds a Mongodb-like dictionary \<^verbatim>\<open>cmap\<close>. The object a
  condition is applied to is either a whole configuration or the \<^verbatim>\<open>AttrDict\<close> built from
  its \<^verbatim>\<open>vars\<close>. The dictionary is represented by its truth value (\<^verbatim>\<open>bool(self.cmap)\<close>) and
  by the outcome of \<^verbatim>\<open>evaluate_rpn(map2rpn(self.cmap, obj))\<close> on each object, \<open>Inl\<close> when
  that evaluation raises.
\<close>

datatype cond_obj = ConfObj ParalConf | VarsObj "(string \<times> int) list"

record Condition =
  cmap_nonempty :: bool
  evaluate :: "cond_obj \<Rightarrow> error + bool"

text \<open>
  \<^verbatim>\<open>Condition.__call__\<close>: an empty condition accepts everything; an exception of the
  evaluation is logged as a warning and counts as \<^verbatim>\<open>False\<close>.
\<close>

definition Condition_call :: "Condition \<Rightarrow> cond_obj \<Rightarrow> bool \<times> log" where
  "Condition_call c obj =
     (if \<not> cmap_nonempty c then (True, [])
      else (case evaluate c obj of
              Inr b \<Rightarrow> (b, [])
            | Inl e \<Rightarrow> (False, [(WARNING, ''Condition raised Exception'')])))"

text \<open>
  The object selected by \<^verbatim>\<open>key\<close> in \<^verbatim>\<open>select_with_condition\<close>:
  \<^verbatim>\<open>conf if key is None else AttrDict(conf[key])\<close>. Of the keys of a configuration only
  \<^verbatim>\<open>vars\<close> is a dictionary; \<^verbatim>\<open>AttrDict\<close> of a number raises \<^verbatim>\<open>TypeError\<close>, a missing key
  raises \<^verbatim>\<open>KeyError\<close>.
\<close>

definition select_obj :: "string option \<Rightarrow> ParalConf \<Rightarrow> error + cond_obj" where
  "select_obj key conf =
     (case key of
        None \<Rightarrow> Inr (ConfObj conf)
      | Some k \<Rightarrow>
          (if k = ''vars'' then Inr (VarsObj (vars conf))
           else if k \<in> set [''mpi_ncpus'', ''omp_ncpus'', ''mem_per_cpu'', ''efficiency'']
           then Inl TypeError
           else Inl KeyError))"

text \<open>
  \<^verbatim>\<open>ParalHints.select_with_condition\<close>: keeps, in order, the configurations that satisfy
  the condition. The result is the new value of \<^verbatim>\<open>self._confs\<close>.
\<close>

fun select_with_condition ::
  "Condition \<Rightarrow> string option \<Rightarrow> ParalConf list \<Rightarrow> (error + ParalConf list) \<times> log" where
  "select_with_condition condition key [] = (Inr [], [])"
| "select_with_condition condition key (conf # confs) =
     (case select_obj key conf of
        Inl e \<Rightarrow> (Inl e, [])
      | Inr obj \<Rightarrow>
          (let (add_it, lg) = Condition_call condition obj in
           (case select_with_condition condition key confs of
              (Inl e, lg') \<Rightarrow> (Inl e, lg @ lg')
            | (Inr new_confs, lg') \<Rightarrow>
                (Inr (if add_it then conf # new_confs else new_confs), lg @ lg'))))"

text \<open>
  An entry of \<^verbatim>\<open>policy.autoparal_priorities\<close>: the name of a property, or a mapping with
  the optional keys \<^verbatim>\<open>meta_priority\<close> and \<^verbatim>\<open>minimum_efficiency\<close>.
\<close>

datatype Priority = PName string | PMapping "string option" "rat option"

record TaskPolicy =
  autoparal :: int
  condition :: Condition
  vars_condition :: Condition
  precedence :: string
  autoparal_priorities :: "Priority list"
  frozen_timeout :: int

section \<open>Sparse histograms (\<^verbatim>\<open>SparseHistogram\<close> of \<^verbatim>\<open>utils.py\<close>)\<close>

text \<open>\<^verbatim>\<open>int(x)\<close> of a float truncates towards zero.\<close>

definition py_int :: "rat \<Rightarrow> int" where
  "py_int x = (if x \<ge> 0 then \<lfloor>x\<rfloor> else \<lceil>x\<rceil>)"

text \<open>\<^verbatim>\<open>np.linspace(start, stop, num, endpoint=False)\<close>.\<close>

definition linspace :: "rat \<Rightarrow> rat \<Rightarrow> nat \<Rightarrow> rat list" where
  "linspace start stop num =
     map (\<lambda>i. start + of_nat i * ((stop - start) / of_nat num)) [0..<num]"

text \<open>\<^verbatim>\<open>bisect.bisect_right\<close> of the standard library, and \<^verbatim>\<open>find_le\<close> of monty on top
  of it: the index of the rightmost value less than or equal to \<open>x\<close>.\<close>

function bisect_right :: "rat list \<Rightarrow> rat \<Rightarrow> nat \<Rightarrow> nat \<Rightarrow> nat" where
  "bisect_right a x lo hi =
     (if lo < hi then
        (let mid = (lo + hi) div 2 in
         if x < a ! mid then bisect_right a x lo mid else bisect_right a x (mid + 1) hi)
      else lo)"
  by pat_completeness auto
termination
  by (relation "measure (\<lambda>(a, x, lo, hi). hi - lo)") auto

declare bisect_right.simps [simp del]

definition find_le :: "rat list \<Rightarrow> rat \<Rightarrow> error + nat" where
  "find_le a x =
     (let i = bisect_right a x 0 (length a) in
      if i \<noteq> 0 then Inr (i - 1) else Inl ValueError)"

fun find_all_le :: "rat list \<Rightarrow> rat list \<Rightarrow> error + nat list" where
  "find_all_le mesh [] = Inr []"
| "find_all_le mesh (v # vs) =
     (case find_le mesh v of
        Inl e \<Rightarrow> Inl e
      | Inr pos \<Rightarrow> (case find_all_le mesh vs of Inl e \<Rightarrow> Inl e | Inr ps \<Rightarrow> Inr (pos # ps)))"

definition py_min :: "rat list \<Rightarrow> error + rat" where
  "py_min vs = (case vs of [] \<Rightarrow> Inl ValueError | v # rest \<Rightarrow> Inr (fold min rest v))"

definition py_max :: "rat list \<Rightarrow> error + rat" where
  "py_max vs = (case vs of [] \<Rightarrow> Inl ValueError | v # rest \<Rightarrow> Inr (fold max rest v))"

text \<open>
  The constructor body. The result is the pair \<^verbatim>\<open>(self.binvals, self.values)\<close>: the
  sorted bin values that received an item, and for each the items of that bin in their
  original order. A \<^verbatim>\<open>num\<close> that is not a non-negative integer makes
  \<^verbatim>\<open>np.linspace\<close> raise. The arithmetic is exact: where the rounding of floats puts
  \<^verbatim>\<open>(stop - start) / step\<close> just below an integer (efficiencies from 0.4 to 0.7 with step
  0.1 give 2.9999999999999996), the source has one bin less than this definition.
\<close>

definition SparseHistogram ::
  "'a list \<Rightarrow> ('a \<Rightarrow> rat) \<Rightarrow> rat option \<Rightarrow> rat option \<Rightarrow> error + (rat list \<times> 'a list list)" where
  "SparseHistogram items key num step =
     (if num = None \<and> step = None then Inl ValueError
      else
        (let vals = map key items in
         case py_min vals of
           Inl e \<Rightarrow> Inl e
         | Inr start \<Rightarrow>
         (case py_max vals of
           Inl e \<Rightarrow> Inl e
         | Inr stop \<Rightarrow>
         (case (case num of
                  Some n \<Rightarrow> Inr n
                | None \<Rightarrow>
                    (if the step = 0 then Inl ZeroDivisionError
                     else (let n = py_int ((stop - start) / the step)
                           in Inr (if n = 0 then 1 else of_int n)))) of
           Inl e \<Rightarrow> Inl e
         | Inr n \<Rightarrow>
             (if of_int \<lfloor>n\<rfloor> \<noteq> n then Inl TypeError
              else if n < 0 then Inl ValueError
              else
                (let mesh = linspace start stop (nat \<lfloor>n\<rfloor>) in
                 case find_all_le mesh vals of
                   Inl e \<Rightarrow> Inl e
                 | Inr ps \<Rightarrow>
                     (let bins = map (\<lambda>pos. mesh ! pos) ps;
                          binvals = sort (remdups bins)
                      in Inr (binvals,
                              map (\<lambda>b. map fst (filter (\<lambda>(item, b'). b' = b) (zip items bins)))
                                binvals))))))))"

text \<open>
  A call with keyword arguments taken from a dictionary, as in
  \<^verbatim>\<open>SparseHistogram(opt_confs, key=..., **opts[priority])\<close>: the constructor's signature is
  \<^verbatim>\<open>(items, key=None, num=None, step=None)\<close>, and any other keyword is a \<^verbatim>\<open>TypeError\<close>
  raised before the body runs.
\<close>

definition SparseHistogram_kwargs ::
  "'a list \<Rightarrow> ('a \<Rightarrow> rat) \<Rightarrow> (string \<times> rat) list \<Rightarrow> error + (rat list \<times> 'a list list)" where
  "SparseHistogram_kwargs items key kwargs =
     (if list_ex (\<lambda>(k, v). k \<noteq> ''num'' \<and> k \<noteq> ''step'') kwargs then Inl TypeError
      else SparseHistogram items key (map_of kwargs ''num'') (map_of kwargs ''step''))"

section \<open>Multidimensional optimization and the ordering policy\<close>

text \<open>The table \<^verbatim>\<open>opts\<close> of \<^verbatim>\<open>multidimensional_optimization\<close>, as the source has it.\<close>

definition opts :: "(string \<times> (string \<times> rat) list) list" where
  "opts = [(''speedup'', [(''step'', 1)]),
           (''efficiency'', [(''step'', 1 / 10)]),
           (''mem_per_proc'', [(''memory'', 1024)])]"

text \<open>\<^verbatim>\<open>getattr(c, priority)\<close> for the three properties that \<^verbatim>\<open>opts\<close> knows.\<close>

definition conf_attr :: "string \<Rightarrow> ParalConf \<Rightarrow> rat" where
  "conf_attr name c =
     (if name = ''speedup'' then speedup c
      else if name = ''efficiency'' then efficiency c
      else mem_per_proc c)"

text \<open>
  The loop of \<^verbatim>\<open>multidimensional_optimization\<close>: \<^verbatim>\<open>opts[priority]\<close> raises \<^verbatim>\<open>KeyError\<close> for
  an unknown name and \<^verbatim>\<open>TypeError\<close> for a mapping (unhashable);
  \<^verbatim>\<open>histogram.values[pos]\<close> takes the first bin for \<^verbatim>\<open>mem_per_proc\<close> and the last
  otherwise.
\<close>

fun multidimensional_optimization :: "Priority list \<Rightarrow> ParalConf list \<Rightarrow> error + ParalConf list" where
  "multidimensional_optimization [] opt_confs = Inr opt_confs"
| "multidimensional_optimization (PMapping m e # priorities) opt_confs = Inl TypeError"
| "multidimensional_optimization (PName priority # priorities) opt_confs =
     (case map_of opts priority of
        None \<Rightarrow> Inl KeyError
      | Some kwargs \<Rightarrow>
          (case SparseHistogram_kwargs opt_confs (conf_attr priority) kwargs of
             Inl e \<Rightarrow> Inl e
           | Inr (binvals, bins) \<Rightarrow>
               (if bins = [] then Inl IndexError
                else multidimensional_optimization priorities
                       (if priority = ''mem_per_proc'' then hd bins else last bins))))"

text \<open>
  \<^verbatim>\<open>get_ordered_with_policy\<close>, in the three parts of its body. First the user's
  condition on whole configurations, undone when nothing satisfies it.
\<close>

definition apply_policy_condition ::
  "TaskPolicy \<Rightarrow> ParalConf list \<Rightarrow> (error + ParalConf list) \<times> log" where
  "apply_policy_condition policy hints =
     (let bkp_hints = hints in
      if cmap_nonempty (condition policy) then
        (case select_with_condition (condition policy) None hints of
           (Inl e, lg) \<Rightarrow> (Inl e, (INFO, ''Applying condition'') # lg)
         | (Inr new_hints, lg) \<Rightarrow>
             (if new_hints = [] then
                (Inr bkp_hints, (INFO, ''Applying condition'') # lg @
                   [(WARNING, ''Empty list of configurations after policy.condition'')])
              else (Inr new_hints, (INFO, ''Applying condition'') # lg)))
      else (Inr hints, []))"

text \<open>Then the condition on the values in \<^verbatim>\<open>vars\<close>, with the same undo.\<close>

definition apply_policy_vars_condition ::
  "TaskPolicy \<Rightarrow> ParalConf list \<Rightarrow> (error + ParalConf list) \<times> log" where
  "apply_policy_vars_condition policy hints =
     (let bkp_hints = hints in
      if cmap_nonempty (vars_condition policy) then
        (case select_with_condition (vars_condition policy) (Some ''vars'') hints of
           (Inl e, lg) \<Rightarrow> (Inl e, (INFO, ''Applying vars_condition'') # lg)
         | (Inr new_hints, lg) \<Rightarrow>
             (if new_hints = [] then
                (Inr bkp_hints, (INFO, ''Applying vars_condition'') # lg @
                   [(WARNING, ''Empty list of configurations after policy.vars_condition'')])
              else (Inr new_hints, (INFO, ''Applying vars_condition'') # lg)))
      else (Inr hints, []))"

text \<open>
  The condition \<^verbatim>\<open>{'efficiency': {'$gte': min_efficiency}}\<close> of the composite priority:
  its reverse Polish form is \<^verbatim>\<open>[conf.efficiency, min_efficiency, '$gte']\<close>.
\<close>

definition efficiency_gte :: "rat \<Rightarrow> Condition" where
  "efficiency_gte m =
     \<lparr>cmap_nonempty = True,
      evaluate = (\<lambda>obj. case obj of ConfObj c \<Rightarrow> Inr (efficiency c \<ge> m) | VarsObj vs \<Rightarrow> Inl TypeError)\<rparr>"

text \<open>
  Last the ranking. With one priority the list is sorted in place (or cut and sorted for the
  composite priority); otherwise the histograms decide and an empty result raises. The test
  \<^verbatim>\<open>isinstance(..., collections.Mapping)\<close> is read as the test for a mapping.
\<close>

definition rank_hints :: "TaskPolicy \<Rightarrow> ParalConf list \<Rightarrow> (error + ParalConf list) \<times> log" where
  "rank_hints policy hints =
     (case autoparal_priorities policy of
        [p] \<Rightarrow>
          (case p of
             PName n \<Rightarrow>
               (if n = ''efficiency'' then (Inr (sort_by_efficiency True hints), [])
                else if n = ''speedup'' then (Inr (sort_by_speedup True hints), [])
                else if n = ''mem_per_proc'' then (Inr (sort_by_mem_per_proc False hints), [])
                else (Inr hints, []))
           | PMapping meta min_eff \<Rightarrow>
               (case meta of
                  None \<Rightarrow> (Inl KeyError, [])
                | Some m \<Rightarrow>
                    (if m = ''highest_speedup_minimum_efficiency_cutoff'' then
                       (let min_efficiency = (case min_eff of None \<Rightarrow> 1 | Some x \<Rightarrow> x) in
                        case select_with_condition (efficiency_gte min_efficiency) None hints of
                          (Inl e, lg) \<Rightarrow> (Inl e, lg)
                        | (Inr new_hints, lg) \<Rightarrow> (Inr (sort_by_speedup True new_hints), lg))
                     else (Inr hints, []))))
      | priorities \<Rightarrow>
          (case multidimensional_optimization priorities hints of
             Inl e \<Rightarrow> (Inl e, [])
           | Inr new_hints \<Rightarrow>
               (if length new_hints = 0 then (Inl ValueError, []) else (Inr new_hints, []))))"

definition get_ordered_with_policy ::
  "TaskPolicy \<Rightarrow> int \<Rightarrow> ParalConf list \<Rightarrow> (error + ParalConf list) \<times> log" where
  "get_ordered_with_policy policy max_ncpus confs =
     (let hints = filter (\<lambda>c. num_cores c \<le> max_ncpus) confs in
      case apply_policy_condition policy hints of
        (Inl e, lg1) \<Rightarrow> (Inl e, lg1)
      | (Inr hints1, lg1) \<Rightarrow>
          (case apply_policy_vars_condition policy hints1 of
             (Inl e, lg2) \<Rightarrow> (Inl e, lg1 @ lg2)
           | (Inr hints2, lg2) \<Rightarrow>
               (case rank_hints policy hints2 of
                  (r, lg3) \<Rightarrow> (r, lg1 @ lg2 @ lg3))))"

section \<open>Task status, files and the task record\<close>

text \<open>
  The statuses of a node. The class \<^verbatim>\<open>Status\<close> is defined in \<^verbatim>\<open>nodes.py\<close>; the tasks use
  the constants \<^verbatim>\<open>S_INIT\<close> ... \<^verbatim>\<open>S_OK\<close>.
\<close>

datatype Status =
    S_INIT | S_LOCKED | S_READY | S_SUB | S_RUN | S_DONE
  | S_ABICRITICAL | S_QCRITICAL | S_UNCONVERGED | S_ERROR | S_OK

text \<open>
  Modelled from the spec: the order of the statuses and their names, which \<^verbatim>\<open>nodes.py\<close>
  defines. The spec orders them
  \<^verbatim>\<open>INIT < LOCKED < READY < SUBMITTED < RUNNING < DONE < AC_CRITICAL < Q_CRITICAL < ERROR < UNCONVERGED < OK\<close>.
\<close>

fun status_rank :: "Status \<Rightarrow> nat" where
  "status_rank S_INIT = 0"
| "status_rank S_LOCKED = 1"
| "status_rank S_READY = 2"
| "status_rank S_SUB = 3"
| "status_rank S_RUN = 4"
| "status_rank S_DONE = 5"
| "status_rank S_ABICRITICAL = 6"
| "status_rank S_QCRITICAL = 7"
| "status_rank S_ERROR = 8"
| "status_rank S_UNCONVERGED = 9"
| "status_rank S_OK = 10"

text \<open>
  Modelled from the spec: \<^verbatim>\<open>str(status)\<close>, which \<^verbatim>\<open>nodes.py\<close> defines; the names are the
  ones the spec gives to the states.
\<close>

fun status_str :: "Status \<Rightarrow> string" where
  "status_str S_INIT = ''INIT''"
| "status_str S_LOCKED = ''LOCKED''"
| "status_str S_READY = ''READY''"
| "status_str S_SUB = ''SUBMITTED''"
| "status_str S_RUN = ''RUNNING''"
| "status_str S_DONE = ''DONE''"
| "status_str S_ABICRITICAL = ''AC_CRITICAL''"
| "status_str S_QCRITICAL = ''Q_CRITICAL''"
| "status_str S_ERROR = ''ERROR''"
| "status_str S_UNCONVERGED = ''UNCONVERGED''"
| "status_str S_OK = ''OK''"

text \<open>Decimal rendering of integers (\<^verbatim>\<open>str(n)\<close>, \<^verbatim>\<open>"%d" % n\<close>) and \<^verbatim>\<open>int(s)\<close> of a string of
  digits with an optional sign; any other string makes \<^verbatim>\<open>int\<close> raise \<^verbatim>\<open>ValueError\<close>.\<close>

definition digit_char :: "nat \<Rightarrow> char" where
  "digit_char d = ''0123456789'' ! d"

fun show_nat :: "nat \<Rightarrow> string" where
  "show_nat n =
     (if n < 10 then [digit_char n]
      else show_nat (n div 10) @ [digit_char (n mod 10)])"

declare show_nat.simps [simp del]

definition str_int :: "int \<Rightarrow> string" where
  "str_int i = (if i < 0 then CHR ''-'' # show_nat (nat (- i)) else show_nat (nat i))"

definition is_digit :: "char \<Rightarrow> bool" where
  "is_digit c = (c \<in> set ''0123456789'')"

definition digit_value :: "char \<Rightarrow> nat" where
  "digit_value c = length (takeWhile (\<lambda>d. d \<noteq> c) ''0123456789'')"

definition digits_value :: "string \<Rightarrow> nat" where
  "digits_value s = fold (\<lambda>c acc. 10 * acc + digit_value c) s 0"

definition int_of_str :: "string \<Rightarrow> error + int" where
  "int_of_str s =
     (case s of
        [] \<Rightarrow> Inl ValueError
      | c # rest \<Rightarrow>
          (if c = CHR ''-'' \<and> rest \<noteq> [] \<and> list_all is_digit rest
           then Inr (- int (digits_value rest))
           else if list_all is_digit s then Inr (int (digits_value s))
           else Inl ValueError))"

text \<open>\<^verbatim>\<open>needle in haystack\<close> for strings.\<close>

fun starts_with :: "string \<Rightarrow> string \<Rightarrow> bool" where
  "starts_with [] s = True"
| "starts_with (p # ps) [] = False"
| "starts_with (p # ps) (c # cs) = (p = c \<and> starts_with ps cs)"

fun contains_str :: "string \<Rightarrow> string \<Rightarrow> bool" where
  "contains_str needle [] = (needle = [])"
| "contains_str needle (c # cs) = (starts_with needle (c # cs) \<or> contains_str needle cs)"

text \<open>
  A file of the working directory with what the task reads of it: its size and its time of
  last modification. The working directory is the list of the files that exist, by basename.
\<close>

record File =
  fsize :: nat
  mtime :: rat

type_synonym directory = "(string \<times> File) list"

definition file_exists :: "directory \<Rightarrow> string \<Rightarrow> bool" where
  "file_exists d name = (map_of d name \<noteq> None)"

text \<open>\<^verbatim>\<open>File.getsize\<close>: 0 if the file is empty or does not exist.\<close>

definition getsize :: "directory \<Rightarrow> string \<Rightarrow> nat" where
  "getsize d name = (case map_of d name of None \<Rightarrow> 0 | Some f \<Rightarrow> fsize f)"

text \<open>\<^verbatim>\<open>File.remove\<close>: \<^verbatim>\<open>os.remove\<close> with every exception swallowed.\<close>

definition file_remove :: "directory \<Rightarrow> string \<Rightarrow> directory" where
  "file_remove d name = filter (\<lambda>(n, f). n \<noteq> name) d"

text \<open>The fixed file names of \<^verbatim>\<open>Task.set_workdir\<close>.\<close>

definition output_file :: string where "output_file = ''run.abo''"
definition log_file :: string where "log_file = ''run.log''"
definition stderr_file :: string where "stderr_file = ''run.err''"
definition start_lockfile :: string where "start_lockfile = ''__startlock__''"
definition mpiabort_file :: string where "mpiabort_file = ''__ABI_MPIABORTFILE__''"
definition qerr_file :: string where "qerr_file = ''queue.qerr''"
definition qout_file :: string where "qout_file = ''queue.qout''"

text \<open>
  The directory \<^verbatim>\<open>_reset\<close> of the working directory: the text of its file \<^verbatim>\<open>_counter\<close>, if
  that file exists, and the files moved into it.
\<close>

record ResetDir =
  counter :: "string option"
  moved :: directory

text \<open>
  \<^verbatim>\<open>TaskDateTimes\<close>. The constructor sets \<^verbatim>\<open>init\<close> to the current time and the other three
  to \<^verbatim>\<open>None\<close>.
\<close>

record TaskDateTimes =
  dt_init :: rat
  submission :: "rat option"
  dt_start :: "rat option"
  dt_end :: "rat option"

definition TaskDateTimes_new :: "rat \<Rightarrow> TaskDateTimes" where
  "TaskDateTimes_new now_time =
     \<lparr>dt_init = now_time, submission = None, dt_start = None, dt_end = None\<rparr>"

text \<open>
  \<^verbatim>\<open>TaskDateTimes.reset\<close> is \<^verbatim>\<open>self = self.__class__()\<close>: a new object is built and bound to
  the local name \<^verbatim>\<open>self\<close>; the object the task holds is the one the method was called on,
  and no attribute of it is assigned. The function returns the task's object after the call.
\<close>

definition TaskDateTimes_reset :: "rat \<Rightarrow> TaskDateTimes \<Rightarrow> TaskDateTimes" where
  "TaskDateTimes_reset now_time self = (let local_self = TaskDateTimes_new now_time in self)"

text \<open>
  Events of the ABINIT log (\<^verbatim>\<open>events.py\<close>): the name of the event class, whether it is of
  the error or bug kind, and its text. A report knows whether the run completed and the
  times ABINIT reports.
\<close>

record Event =
  ev_class :: string
  ev_is_error :: bool
  ev_text :: string

record EventReport =
  run_completed :: bool
  events :: "Event list"
  start_datetime :: "rat option"
  end_datetime :: "rat option"

datatype QueueError =
    NodeFailureError "string list option"
  | MemoryCancelError
  | TimeCancelError
  | OtherQueueError string

text \<open>
  The task classes modelled: \<^verbatim>\<open>AbinitTask\<close> and its subclasses \<^verbatim>\<open>ScfTask\<close>,
  \<^verbatim>\<open>CollinearThenNonCollinearScfTask\<close> and \<^verbatim>\<open>ManyBodyTask\<close>.
\<close>

datatype Family = AbinitTask | ScfTask | CollinearThenNonCollinearScfTask | ManyBodyTask

text \<open>\<^verbatim>\<open>CRITICAL_EVENTS\<close> of each class.\<close>

fun CRITICAL_EVENTS :: "Family \<Rightarrow> string list" where
  "CRITICAL_EVENTS AbinitTask = []"
| "CRITICAL_EVENTS ScfTask = [''ScfConvergenceWarning'']"
| "CRITICAL_EVENTS CollinearThenNonCollinearScfTask = [''ScfConvergenceWarning'']"
| "CRITICAL_EVENTS ManyBodyTask = []"

text \<open>
  A queue adapter as far as the manager reads it (the class is in \<^verbatim>\<open>qadapters.py\<close>), and
  the \<^verbatim>\<open>TaskManager\<close>.
\<close>

record QueueAdapter =
  priority :: int
  hint_cores :: int

record TaskManager =
  policy :: TaskPolicy
  qads :: "QueueAdapter list"
  qadpos :: nat

text \<open>
  The attributes of a task that the modelled methods read or write. \<open>on_ok_calls\<close> counts
  the calls of \<^verbatim>\<open>on_ok\<close>, the post-processing of the task class; \<open>signals\<close> lists the
  signals sent with \<^verbatim>\<open>send_signal\<close>; \<open>cleaned\<close> counts the calls of
  \<^verbatim>\<open>clean_output_files\<close>. \<open>returncode\<close> is the property of that name: \<open>None\<close> while the
  process has not terminated, and 0 for a task that was never started.
\<close>

record Task =
  family :: Family
  status :: Status
  finalized :: bool
  collinear_done :: bool
  spin_mode :: string
  gwmem :: "int option"
  num_restarts :: int
  datetimes :: TaskDateTimes
  history :: log
  returncode :: "int option"
  queue_errors :: "QueueError list"
  abi_errors :: "Event list"
  mem_scales :: bool
  load_scales :: bool
  manager :: TaskManager
  gc_policy :: "string option"
  workdir :: directory
  reset_dir :: "ResetDir option"
  on_ok_calls :: nat
  signals :: "Status list"
  cleaned :: nat

text \<open>
  What a call reads from outside the task: the clock, the outcome of the operations on the
  file system and on the queue adapter that can fail, and the outcome of parsing the ABINIT
  files. \<open>fix_ofiles_raises\<close>: a rename in \<^verbatim>\<open>fix_ofiles\<close> fails. \<open>unmovable\<close>: the files
  for which \<^verbatim>\<open>shutil.move\<close> raises \<^verbatim>\<open>OSError\<close>. \<open>parse\<close>: \<^verbatim>\<open>EventsParser.parse\<close> of the file
  with the given name. \<open>restart_file\<close>: what the search of \<^verbatim>\<open>ScfTask.restart\<close> for a
  \<^verbatim>\<open>WFK\<close> or \<^verbatim>\<open>DEN\<close> file with \<^verbatim>\<open>has_abiext\<close> gives. \<open>launch\<close>: the outcome of building the
  task and submitting it in \<^verbatim>\<open>start\<close>, \<open>Inr True\<close> when the job was submitted,
  \<open>Inr False\<close> when autoparal failed beyond repair. The last five are the operations of
  the queue adapter behind the manager.
\<close>

record Env =
  now :: rat
  asctime :: string
  fix_ofiles_raises :: bool
  unmovable :: "string list"
  parse :: "string \<Rightarrow> error + EventReport"
  restart_file :: "error + string option"
  launch :: "error + bool"
  more_cores :: "error + unit"
  more_mem_per_proc :: "error + unit"
  more_time :: "error + unit"
  qad_exclude_nodes :: "error + unit"

section \<open>Setting the status of a task\<close>

definition history_add :: "level \<Rightarrow> string \<Rightarrow> Task \<Rightarrow> Task" where
  "history_add lvl msg t = t\<lparr>history := history t @ [(lvl, msg)]\<rparr>"

text \<open>\<^verbatim>\<open>Task.lock\<close>: only a task in \<^verbatim>\<open>S_INIT\<close> can be locked.\<close>

definition lock :: "Task \<Rightarrow> string \<Rightarrow> Task \<times> (error + unit)" where
  "lock t source_node =
     (if status t \<noteq> S_INIT then (t, Inl ValueError)
      else (history_add INFO (''Locked by node '' @ source_node) (t\<lparr>status := S_LOCKED\<rparr>),
            Inr ()))"

text \<open>
  The first part of \<^verbatim>\<open>Task.set_status\<close>, up to the callbacks: the message is truncated, a
  locked task or the target \<^verbatim>\<open>S_LOCKED\<close> raises \<^verbatim>\<open>RuntimeError\<close> before anything is
  assigned, the status is assigned, the start time is set when the task enters \<^verbatim>\<open>S_RUN\<close>
  for the first time, and an entry is added to the history only if the status has changed.
  The numbers that the message of a submission prints are left out of the text.
\<close>

definition truncate_msg :: "string \<Rightarrow> string" where
  "truncate_msg msg =
     (if length msg > 2000 then take 2000 msg @ [CHR 0x0A] @ ''... snip ...'' @ [CHR 0x0A]
      else msg)"

definition set_status_transition :: "Env \<Rightarrow> Task \<Rightarrow> Status \<Rightarrow> string \<Rightarrow> error + Task" where
  "set_status_transition env t new_status msg0 =
     (let msg = truncate_msg msg0 in
      if status t = S_LOCKED \<or> new_status = S_LOCKED then Inl RuntimeError
      else
        (let changed = (new_status \<noteq> status t);
             t1 = t\<lparr>status := new_status\<rparr>;
             t2 = (if new_status = S_RUN \<and> dt_start (datetimes t1) = None
                   then t1\<lparr>datetimes := (datetimes t1)\<lparr>dt_start := Some (now env)\<rparr>\<rparr>
                   else t1)
         in Inr
           (if changed then
              (if new_status = S_SUB then
                 history_add INFO (''Submitted with MPI, Omp, Memproc '' @ msg)
                   (t2\<lparr>datetimes := (datetimes t2)\<lparr>submission := Some (now env)\<rparr>\<rparr>)
               else if new_status = S_OK then
                 history_add INFO (''Task completed '' @ msg) t2
               else if new_status = S_ABICRITICAL then
                 history_add INFO (''Status set to S_ABI_CRITICAL due to: '' @ msg) t2
               else
                 history_add INFO
                   (''Status changed to '' @ status_str new_status @ ''. msg: '' @ msg) t2)
            else t2)))"

text \<open>
  \<^verbatim>\<open>fix_ofiles\<close> renames output files with \<^verbatim>\<open>os.rename\<close>; the renames are not modelled,
  their failure is.
\<close>

definition fix_ofiles :: "Env \<Rightarrow> Task \<Rightarrow> Task \<times> (error + unit)" where
  "fix_ofiles env t = (if fix_ofiles_raises env then (t, Inl OSError) else (t, Inr ()))"

definition file_write :: "directory \<Rightarrow> string \<Rightarrow> File \<Rightarrow> directory" where
  "file_write d name f = (name, f) # file_remove d name"

text \<open>
  \<^verbatim>\<open>Task.start\<close>. It refuses a task that was already submitted and a task whose lock file
  exists, writes the lock file, and then builds and submits the task: these steps
  (\<^verbatim>\<open>build\<close>, \<^verbatim>\<open>_setup\<close>, \<^verbatim>\<open>autoparal_run\<close>, \<^verbatim>\<open>manager.launch\<close>) are represented by their
  outcome \<open>launch env\<close>. \<^verbatim>\<open>manager.launch\<close> refuses a locked task and sets \<^verbatim>\<open>S_SUB\<close> after
  the submission; a failed autoparal sets \<^verbatim>\<open>S_ABICRITICAL\<close> and returns 0. The statuses set
  here are neither \<^verbatim>\<open>S_DONE\<close> nor \<^verbatim>\<open>S_OK\<close>, so that \<^verbatim>\<open>set_status\<close> ends after its first
  part.
\<close>

definition start :: "Env \<Rightarrow> Task \<Rightarrow> Task \<times> (error + int)" where
  "start env t =
     (if status_rank (status t) \<ge> status_rank S_SUB then (t, Inl TaskError)
      else if file_exists (workdir t) start_lockfile then
        (history_add WARNING (''Found lock file: '' @ start_lockfile) t, Inr 0)
      else
        (let t1 = t\<lparr>workdir := file_write (workdir t) start_lockfile
                     \<lparr>fsize = length (''Started on '' @ asctime env) + 1, mtime = now env\<rparr>\<rparr>
         in case launch env of
              Inl e \<Rightarrow> (t1, Inl e)
            | Inr False \<Rightarrow>
                (case set_status_transition env t1 S_ABICRITICAL
                        ''fix_abicritical could not solve the problem'' of
                   Inl e \<Rightarrow> (t1, Inl e)
                 | Inr t2 \<Rightarrow> (t2, Inr 0))
            | Inr True \<Rightarrow>
                (if status t1 = S_LOCKED then (t1, Inl ValueError)
                 else (case set_status_transition env t1 S_SUB ''Submitted to queue'' of
                         Inl e \<Rightarrow> (t1, Inl e)
                       | Inr t2 \<Rightarrow> (t2, Inr 1)))))"

text \<open>
  \<^verbatim>\<open>Task._restart\<close>: status \<^verbatim>\<open>S_READY\<close>, one more restart, the datetimes reset, the lock
  file removed, and the task started again if \<^verbatim>\<open>submit\<close> is set.
\<close>

definition internal_restart :: "Env \<Rightarrow> Task \<Rightarrow> bool \<Rightarrow> Task \<times> (error + int)" where
  "internal_restart env t submit =
     (case set_status_transition env t S_READY (''Restarted on '' @ asctime env) of
        Inl e \<Rightarrow> (t, Inl e)
      | Inr t1 \<Rightarrow>
          (let t2 = t1\<lparr>num_restarts := num_restarts t1 + 1\<rparr>;
               t3 = history_add INFO (''Restarted, num_restarts '' @ str_int (num_restarts t2)) t2;
               t4 = t3\<lparr>datetimes := TaskDateTimes_reset (now env) (datetimes t3)\<rparr>;
               t5 = t4\<lparr>workdir := file_remove (workdir t4) start_lockfile\<rparr>
           in if submit then
                (case start env t5 of
                   (t6, Inl e) \<Rightarrow> (t6, Inl e)
                 | (t6, Inr fired) \<Rightarrow>
                     (if fired = 0 then (history_add WARNING ''Restart failed'' t6, Inr fired)
                      else (t6, Inr fired)))
              else (t5, Inr 0)))"

text \<open>
  \<^verbatim>\<open>restart\<close>: \<^verbatim>\<open>AbinitTask.restart\<close> calls \<^verbatim>\<open>_restart\<close>; \<^verbatim>\<open>ScfTask.restart\<close> needs a
  \<^verbatim>\<open>WFK\<close> or \<^verbatim>\<open>DEN\<close> file and raises \<^verbatim>\<open>RestartError\<close> without one. Moving the file and
  setting the input variable are not modelled.
\<close>

definition restart :: "Env \<Rightarrow> Task \<Rightarrow> Task \<times> (error + int)" where
  "restart env t =
     (if family t = ScfTask \<or> family t = CollinearThenNonCollinearScfTask then
        (case restart_file env of
           Inl e \<Rightarrow> (t, Inl e)
         | Inr None \<Rightarrow> (t, Inl TaskRestartError)
         | Inr (Some f) \<Rightarrow>
             internal_restart env (history_add INFO (''Will restart from '' @ f) t) True)
      else internal_restart env t True)"

text \<open>\<^verbatim>\<open>on_ok\<close>, the post-processing of the task class, is counted.\<close>

definition on_ok :: "Task \<Rightarrow> Task" where
  "on_ok t = t\<lparr>on_ok_calls := on_ok_calls t + 1\<rparr>"

text \<open>\<^verbatim>\<open>Task._on_ok\<close>: fix the output files, set \<^verbatim>\<open>finalized\<close>, call \<^verbatim>\<open>on_ok\<close>.\<close>

definition Task_on_ok :: "Env \<Rightarrow> Task \<Rightarrow> Task \<times> (error + unit)" where
  "Task_on_ok env t =
     (case fix_ofiles env t of
        (t1, Inl e) \<Rightarrow> (t1, Inl e)
      | (t1, Inr u) \<Rightarrow> (on_ok (t1\<lparr>finalized := True\<rparr>), Inr ()))"

text \<open>
  \<^verbatim>\<open>self._on_ok()\<close> with the override of \<^verbatim>\<open>CollinearThenNonCollinearScfTask\<close>: after the
  method of the base class, the first (collinear) run switches to spinors, clears
  \<^verbatim>\<open>finalized\<close> and restarts the task.
\<close>

definition internal_on_ok :: "Env \<Rightarrow> Task \<Rightarrow> Task \<times> (error + unit)" where
  "internal_on_ok env t =
     (if family t = CollinearThenNonCollinearScfTask then
        (case Task_on_ok env t of
           (t1, Inl e) \<Rightarrow> (t1, Inl e)
         | (t1, Inr u) \<Rightarrow>
             (if \<not> collinear_done t1 then
                (case restart env
                        (t1\<lparr>spin_mode := ''spinor'', collinear_done := True, finalized := False\<rparr>) of
                   (t2, Inl e) \<Rightarrow> (t2, Inl e)
                 | (t2, Inr fired) \<Rightarrow> (t2, Inr ()))
              else (t1, Inr ())))
      else Task_on_ok env t)"

definition internal_on_done :: "Env \<Rightarrow> Task \<Rightarrow> Task \<times> (error + unit)" where
  "internal_on_done env t = fix_ofiles env t"

text \<open>
  \<^verbatim>\<open>Task.set_status\<close>: the first part, then the callbacks. A transition to \<^verbatim>\<open>S_OK\<close> calls
  \<^verbatim>\<open>_on_ok\<close> unless the task is finalized.
\<close>

definition set_status :: "Env \<Rightarrow> Task \<Rightarrow> Status \<Rightarrow> string \<Rightarrow> Task \<times> (error + Status)" where
  "set_status env t new_status msg =
     (case set_status_transition env t new_status msg of
        Inl e \<Rightarrow> (t, Inl e)
      | Inr t1 \<Rightarrow>
          (case (if new_status = S_DONE then internal_on_done env t1 else (t1, Inr ())) of
             (t2, Inl e) \<Rightarrow> (t2, Inl e)
           | (t2, Inr u) \<Rightarrow>
               (if new_status = S_OK then
                  (case (if \<not> finalized t2 then internal_on_ok env t2 else (t2, Inr ())) of
                     (t3, Inl e) \<Rightarrow> (t3, Inl e)
                   | (t3, Inr u') \<Rightarrow>
                       (if status t3 = S_OK then
                          (let t4 = (if gc_policy t3 = Some ''task''
                                     then t3\<lparr>cleaned := cleaned t3 + 1\<rparr> else t3)
                           in (t4\<lparr>signals := signals t4 @ [S_OK]\<rparr>, Inr new_status))
                        else (t3, Inr new_status)))
                else (t2, Inr new_status))))"

section \<open>Deriving the status of a task\<close>

text \<open>
  \<^verbatim>\<open>parser.report_exception\<close>: "Return a report with an error entry with info on the
  exception."
\<close>

definition report_exception :: "string \<Rightarrow> EventReport" where
  "report_exception filepath =
     \<lparr>run_completed = False,
      events = [\<lparr>ev_class = ''Error'', ev_is_error = True,
                 ev_text = ''Exception while parsing '' @ filepath\<rparr>],
      start_datetime = None, end_datetime = None\<rparr>"

text \<open>The body of the \<^verbatim>\<open>try\<close> of \<^verbatim>\<open>get_event_report\<close>.\<close>

definition parse_log_and_abort :: "Env \<Rightarrow> Task \<Rightarrow> Task \<times> (error + EventReport)" where
  "parse_log_and_abort env t =
     (case parse env log_file of
        Inl e \<Rightarrow> (t, Inl e)
      | Inr report \<Rightarrow>
          (if file_exists (workdir t) mpiabort_file then
             (let t1 = history_add CRITICAL ''Found ABI_MPIABORTFILE!!!!!'' t in
              case parse env mpiabort_file of
                Inl e \<Rightarrow> (t1, Inl e)
              | Inr abort_report \<Rightarrow>
                  (let t2 = (if length (events abort_report) \<noteq> 1
                             then history_add CRITICAL
                                    ''Found more than one event in ABI_MPIABORTFILE'' t1
                             else t1)
                   in if events abort_report = [] then (t2, Inl IndexError)
                      else (t2, Inr (report\<lparr>events := events report @
                                                        [last (events abort_report)]\<rparr>))))
           else (t, Inr report)))"

text \<open>
  \<^verbatim>\<open>get_event_report\<close> with the default \<^verbatim>\<open>source="log"\<close>: \<^verbatim>\<open>None\<close> without a log file and
  without an abort file; an exception while parsing the log sets \<^verbatim>\<open>S_ABICRITICAL\<close> and
  gives the report of the exception.
\<close>

definition get_event_report :: "Env \<Rightarrow> Task \<Rightarrow> Task \<times> (error + EventReport option)" where
  "get_event_report env t =
     (if \<not> file_exists (workdir t) log_file then
        (if \<not> file_exists (workdir t) mpiabort_file then (t, Inr None)
         else (case parse env mpiabort_file of
                 Inl e \<Rightarrow> (t, Inl e)
               | Inr abort_report \<Rightarrow> (t, Inr (Some abort_report))))
      else
        (case parse_log_and_abort env t of
           (t1, Inr report) \<Rightarrow> (t1, Inr (Some report))
         | (t1, Inl exc) \<Rightarrow>
             (case set_status env t1 S_ABICRITICAL
                     (log_file @ '': Exception while parsing ABINIT events'') of
                (t2, Inl e) \<Rightarrow> (t2, Inl e)
              | (t2, Inr s) \<Rightarrow> (t2, Inr (Some (report_exception log_file))))))"

text \<open>\<^verbatim>\<open>report.filter_types(self.CRITICAL_EVENTS)\<close> and \<^verbatim>\<open>report.errors\<close>.\<close>

definition filter_types :: "EventReport \<Rightarrow> string list \<Rightarrow> Event list" where
  "filter_types report types = filter (\<lambda>ev. ev_class ev \<in> set types) (events report)"

definition errors :: "EventReport \<Rightarrow> Event list" where
  "errors report = filter ev_is_error (events report)"

definition record_abi_errors :: "Event list \<Rightarrow> Task \<Rightarrow> Task" where
  "record_abi_errors errs t =
     fold (\<lambda>ev t'. (history_add DEBUG (ev_text ev) t')\<lparr>abi_errors := abi_errors t' @ [ev]\<rparr>) errs t"

text \<open>
  The block of \<^verbatim>\<open>check_status\<close> under \<^verbatim>\<open>if self.output_file.exists:\<close>. Its result is the
  task and, when the block returns from \<^verbatim>\<open>check_status\<close>, what it returns.
\<close>

definition check_report ::
  "Env \<Rightarrow> Task \<Rightarrow> bool \<Rightarrow> bool \<Rightarrow> Task \<times> (error + Status) option" where
  "check_report env t err_msg qerr_info =
     (case get_event_report env t of
        (t1, Inl exc) \<Rightarrow>
          (case set_status env t1 S_ABICRITICAL ''exception while parsing event_report'' of
             (t2, r) \<Rightarrow> (t2, Some r))
      | (t1, Inr None) \<Rightarrow>
          (case set_status env t1 S_ERROR ''Got None report!'' of (t2, r) \<Rightarrow> (t2, Some r))
      | (t1, Inr (Some report)) \<Rightarrow>
          (if run_completed report then
             (let t2 = t1\<lparr>datetimes := (datetimes t1)\<lparr>dt_start := start_datetime report,
                                                       dt_end := end_datetime report\<rparr>\<rparr>
              in if filter_types report (CRITICAL_EVENTS (family t2)) \<noteq> [] then
                   (case set_status env t2 S_UNCONVERGED
                           ''status set to UNCONVERGED based on abiout'' of
                      (t3, r) \<Rightarrow> (t3, Some r))
                 else
                   (case set_status env t2 S_OK ''status set to OK based on abiout'' of
                      (t3, r) \<Rightarrow> (t3, Some r)))
           else if errors report \<noteq> [] then
             (let t2 = history_add DEBUG ''Found errors in report'' t1;
                  t3 = record_abi_errors (errors report) t2;
                  t4 = history_add DEBUG ''Found Errors or Bugs in ABINIT main output!'' t3
              in case set_status env t4 S_ABICRITICAL
                        (concat (map ev_text (errors report))) of
                   (t5, r) \<Rightarrow> (t5, Some r))
           else if file_exists (workdir t1) stderr_file \<and> \<not> err_msg
                   \<and> file_exists (workdir t1) qerr_file \<and> \<not> qerr_info then
             (case set_status env t1 S_RUN
                     ''there is output and no errors: job still seems to be running'' of
                (t2, r) \<Rightarrow> (t2, Some r))
           else (t1, None)))"

text \<open>
  \<^verbatim>\<open>Task.check_status\<close>. The source computes \<^verbatim>\<open>black_list = (self.S_LOCKED, self.S_ERROR)\<close>
  and has the test of the black list in a comment only
  (\<^verbatim>\<open>#if self.status in black_list: return self.status\<close>), so the first test that runs is the
  one of the return code. The time of last modification that is compared with
  \<^verbatim>\<open>frozen_timeout\<close> is the one of \<^verbatim>\<open>self.output_file\<close>.
\<close>

definition frozen_msg :: "int \<Rightarrow> string" where
  "frozen_msg timeout =
     ''Task seems to be frozen, last change more than '' @ str_int timeout @ '' [s] ago''"

definition check_status :: "Env \<Rightarrow> Task \<Rightarrow> Task \<times> (error + Status)" where
  "check_status env t =
     (if returncode t \<noteq> Some 0 then
        set_status env t S_QCRITICAL
          ''job.sh return code: Perhaps the job was not submitted properly?''
      else if file_exists (workdir t) mpiabort_file then
        set_status env t S_ABICRITICAL ''Found ABINIT abort file''
      else
        (let err_msg = (getsize (workdir t) stderr_file \<noteq> 0);
             qerr_info = (getsize (workdir t) qerr_file \<noteq> 0)
         in case (if file_exists (workdir t) output_file
                  then check_report env t err_msg qerr_info else (t, None)) of
              (t1, Some r) \<Rightarrow> (t1, r)
            | (t1, None) \<Rightarrow>
                (if \<not> file_exists (workdir t1) output_file
                    \<and> \<not> file_exists (workdir t1) stderr_file
                    \<and> \<not> file_exists (workdir t1) qerr_file
                 then (t1, Inr (status t1))
                 else
                   (let t2 = (if err_msg then history_add WARNING ''Found error message'' t1
                              else t1)
                    in case map_of (workdir t2) output_file of
                         Some f \<Rightarrow>
                           (if now env - mtime f > of_int (frozen_timeout (policy (manager t2)))
                            then set_status env t2 S_ERROR
                                   (frozen_msg (frozen_timeout (policy (manager t2))))
                            else set_status env t2 S_RUN
                                   ''final option: nothing seems to be wrong, the job must still be running'')
                       | None \<Rightarrow>
                           set_status env t2 S_RUN
                             ''final option: nothing seems to be wrong, the job must still be running''))))"

text \<open>
  \<^verbatim>\<open>Task.unlock\<close>: only a locked task can be unlocked; the status becomes \<^verbatim>\<open>S_READY\<close> and,
  unless \<^verbatim>\<open>check_status=False\<close> is passed, \<^verbatim>\<open>check_status\<close> is called.
\<close>

definition unlock :: "Env \<Rightarrow> Task \<Rightarrow> string \<Rightarrow> bool \<Rightarrow> Task \<times> (error + unit)" where
  "unlock env t source_node check_status_flag =
     (if status t \<noteq> S_LOCKED then (t, Inl RuntimeError)
      else
        (let t1 = t\<lparr>status := S_READY\<rparr> in
         case (if check_status_flag then check_status env t1 else (t1, Inr S_READY)) of
           (t2, Inl e) \<Rightarrow> (t2, Inl e)
         | (t2, Inr s) \<Rightarrow> (history_add INFO (''Unlocked by '' @ source_node) t2, Inr ())))"

section \<open>Resetting a task and fixing queue errors\<close>

text \<open>
  The helper \<^verbatim>\<open>move_file\<close> of \<^verbatim>\<open>reset_from_scratch\<close>: a file that exists is moved into
  \<^verbatim>\<open>_reset\<close> under its basename followed by \<^verbatim>\<open>_\<close> and the reset index; an \<^verbatim>\<open>OSError\<close> of
  the move is logged and the file stays.
\<close>

definition move_file :: "Env \<Rightarrow> int \<Rightarrow> string \<Rightarrow> Task \<Rightarrow> Task" where
  "move_file env num_reset f t =
     (case map_of (workdir t) f of
        None \<Rightarrow> t
      | Some file \<Rightarrow>
          (if f \<in> set (unmovable env) then
             history_add WARNING (''Couldn't move file '' @ f) t
           else
             t\<lparr>workdir := file_remove (workdir t) f,
               reset_dir := map_option
                 (\<lambda>rd. rd\<lparr>moved := file_write (moved rd) (f @ ''_'' @ str_int num_reset) file\<rparr>)
                 (reset_dir t)\<rparr>))"

text \<open>
  \<^verbatim>\<open>AbinitTask.reset_from_scratch\<close>. Reading the counter raises when the directory exists
  without a readable counter file.
\<close>

definition reset_from_scratch :: "Env \<Rightarrow> Task \<Rightarrow> Task \<times> (error + int)" where
  "reset_from_scratch env t =
     (case (case reset_dir t of
              None \<Rightarrow> Inr (t\<lparr>reset_dir := Some \<lparr>counter = None, moved = []\<rparr>\<rparr>, 1)
            | Some rd \<Rightarrow>
                (case counter rd of
                   None \<Rightarrow> Inl OSError
                 | Some s \<Rightarrow>
                     (case int_of_str s of
                        Inl e \<Rightarrow> Inl e
                      | Inr n \<Rightarrow> Inr (t, 1 + n)))) of
        Inl e \<Rightarrow> (t, Inl e)
      | Inr (t1, num_reset) \<Rightarrow>
          (let t2 = fold (move_file env num_reset)
                      [output_file, log_file, stderr_file, qout_file, qerr_file] t1;
               t3 = t2\<lparr>reset_dir :=
                        map_option (\<lambda>rd. rd\<lparr>counter := Some (str_int num_reset)\<rparr>) (reset_dir t2)\<rparr>;
               t4 = t3\<lparr>workdir := file_remove (workdir t3) start_lockfile\<rparr>;
               t5 = t4\<lparr>datetimes := TaskDateTimes_reset (now env) (datetimes t4)\<rparr>
           in internal_restart env t5 False))"

text \<open>
  The requests of the manager to its queue adapter: a \<^verbatim>\<open>QueueAdapterError\<close> becomes a
  \<^verbatim>\<open>ManagerIncreaseError\<close>.
\<close>

definition as_manager_error :: "error + unit \<Rightarrow> error + unit" where
  "as_manager_error r =
     (case r of
        Inl e \<Rightarrow> (if e = QueueAdapterError then Inl ManagerIncreaseError else Inl e)
      | Inr u \<Rightarrow> Inr u)"

definition increase_mem :: "Env \<Rightarrow> error + unit" where
  "increase_mem env = as_manager_error (more_mem_per_proc env)"

definition increase_ncpus :: "Env \<Rightarrow> error + unit" where
  "increase_ncpus env = as_manager_error (more_cores env)"

definition increase_resources :: "Env \<Rightarrow> error + unit" where
  "increase_resources env =
     (case more_cores env of
        Inr u \<Rightarrow> Inr ()
      | Inl e \<Rightarrow>
          (if e = QueueAdapterError then as_manager_error (more_mem_per_proc env) else Inl e))"

definition exclude_nodes :: "Env \<Rightarrow> error + unit" where
  "exclude_nodes env = as_manager_error (qad_exclude_nodes env)"

definition increase_time :: "Env \<Rightarrow> error + unit" where
  "increase_time env = as_manager_error (more_time env)"

text \<open>
  \<^verbatim>\<open>reduce_memory_demand\<close>: "Returns True in case of success, False in case of Failure."
  The method of \<^verbatim>\<open>Task\<close> returns \<^verbatim>\<open>False\<close>; the one of \<^verbatim>\<open>ManyBodyTask\<close> lowers \<^verbatim>\<open>gwmem\<close>
  (11 if absent) one digit at a time. \<^verbatim>\<open>speed_up\<close> of \<^verbatim>\<open>Task\<close> returns \<^verbatim>\<open>False\<close>. Neither
  raises.
\<close>

definition reduce_memory_demand :: "Task \<Rightarrow> Task \<times> bool" where
  "reduce_memory_demand t =
     (if family t = ManyBodyTask then
        (let prev_gwmem = (case gwmem t of None \<Rightarrow> 11 | Some g \<Rightarrow> g);
             first_dig = prev_gwmem div 10;
             second_dig = prev_gwmem mod 10
         in if second_dig = 1 then (t\<lparr>gwmem := Some (10 * first_dig)\<rparr>, True)
            else if first_dig = 1 then (t\<lparr>gwmem := Some 0\<rparr>, True)
            else (t, False))
      else (t, False))"

definition speed_up :: "Task \<Rightarrow> Task \<times> bool" where
  "speed_up t = (t, False)"

text \<open>
  The two statements that follow every successful request in \<^verbatim>\<open>fix_queue_critical\<close>:
  \<^verbatim>\<open>self.reset_from_scratch()\<close> and \<^verbatim>\<open>self.set_status(self.S_READY, msg=...)\<close>.
\<close>

definition reset_and_ready :: "Env \<Rightarrow> Task \<Rightarrow> string \<Rightarrow> Task \<times> (error + unit)" where
  "reset_and_ready env t msg =
     (case reset_from_scratch env t of
        (t1, Inl e) \<Rightarrow> (t1, Inl e)
      | (t1, Inr fired) \<Rightarrow>
          (case set_status env t1 S_READY msg of
             (t2, Inl e) \<Rightarrow> (t2, Inl e)
           | (t2, Inr s) \<Rightarrow> (t2, Inr ())))"

text \<open>
  A \<^verbatim>\<open>try\<close> block that makes a request and, if the request succeeds, resets the task and
  sets \<^verbatim>\<open>S_READY\<close>.
\<close>

definition request_then_reset ::
  "Env \<Rightarrow> Task \<Rightarrow> error + unit \<Rightarrow> string \<Rightarrow> Task \<times> (error + unit)" where
  "request_then_reset env t request msg =
     (case request of
        Inl e \<Rightarrow> (t, Inl e)
      | Inr u \<Rightarrow> reset_and_ready env t msg)"

datatype Ret = RetNone | RetInt int | RetStr string

definition queue_error_str :: "QueueError \<Rightarrow> string" where
  "queue_error_str e =
     (case e of
        NodeFailureError nodes \<Rightarrow> ''NodeFailureError''
      | MemoryCancelError \<Rightarrow> ''MemoryCancelError''
      | TimeCancelError \<Rightarrow> ''TimeCancelError''
      | OtherQueueError name \<Rightarrow> name)"

text \<open>
  The branch of \<^verbatim>\<open>fix_queue_critical\<close> for a \<^verbatim>\<open>MemoryCancelError\<close>. The result \<open>Inr ()\<close> is
  the \<^verbatim>\<open>return\<close> after a remedy; the branch ends otherwise with \<^verbatim>\<open>FixQueueCriticalError\<close>.
  An exception of a \<^verbatim>\<open>try\<close> block other than the one its \<^verbatim>\<open>except\<close> names propagates.
\<close>

definition fix_memory_cancel :: "Env \<Rightarrow> Task \<Rightarrow> Task \<times> (error + unit)" where
  "fix_memory_cancel env t =
     (let first =
        (if mem_scales t then
           (case request_then_reset env t (increase_ncpus env)
                   ''increased ncps to solve memory problem'' of
              (t1, Inr u) \<Rightarrow> (t1, Some (Inr ()))
            | (t1, Inl e) \<Rightarrow>
                (if e = ManagerIncreaseError
                 then (history_add WARNING ''increasing ncpus failed'' t1, None)
                 else (t1, Some (Inl e))))
         else (t, None))
      in case first of
           (t1, Some r) \<Rightarrow> (t1, r)
         | (t1, None) \<Rightarrow>
             (case request_then_reset env t1 (increase_mem env) ''increased mem'' of
                (t2, Inr u) \<Rightarrow> (t2, Inr ())
              | (t2, Inl e) \<Rightarrow>
                  (if e \<noteq> ManagerIncreaseError then (t2, Inl e)
                   else
                     (let t3 = history_add WARNING ''increasing mem failed'' t2 in
                      case reduce_memory_demand t3 of
                        (t4, reduced) \<Rightarrow>
                          (case reset_and_ready env t4 ''decreased mem demand'' of
                             (t5, Inr u) \<Rightarrow> (t5, Inr ())
                           | (t5, Inl e') \<Rightarrow>
                               (if e' \<noteq> DecreaseDemandsError then (t5, Inl e')
                                else
                                  (let t6 = history_add WARNING ''decreasing demands failed'' t5 in
                                   case set_status env t6 S_ERROR
                                          ''Memory error detected but the memory could not be increased neither could the memory demand be decreased. Unrecoverable error.'' of
                                     (t7, Inl e'') \<Rightarrow> (t7, Inl e'')
                                   | (t7, Inr s) \<Rightarrow> (t7, Inl FixQueueCriticalError))))))))"

text \<open>
  The branch for a \<^verbatim>\<open>TimeCancelError\<close>. \<open>Inr True\<close> is the \<^verbatim>\<open>return\<close> after a remedy,
  \<open>Inr False\<close> the end of the branch after \<^verbatim>\<open>S_ERROR\<close> was set, where the loop goes on.
\<close>

definition fix_time_cancel :: "Env \<Rightarrow> Task \<Rightarrow> Task \<times> (error + bool)" where
  "fix_time_cancel env t =
     (case request_then_reset env t (increase_time env) ''increased wall time'' of
        (t1, Inr u) \<Rightarrow> (t1, Inr True)
      | (t1, Inl e) \<Rightarrow>
          (if e \<noteq> ManagerIncreaseError then (t1, Inl e)
           else
             (let t2 = history_add WARNING ''increasing the waltime failed'' t1;
                  second =
                    (if load_scales t2 then
                       (case request_then_reset env t2 (increase_ncpus env)
                               ''increased number of cpus'' of
                          (t3, Inr u) \<Rightarrow> (t3, Some (Inr True))
                        | (t3, Inl e') \<Rightarrow>
                            (if e' = ManagerIncreaseError
                             then (history_add WARNING
                                     ''increase ncpus to speed up the calculation to stay in the walltime failed''
                                     t3, None)
                             else (t3, Some (Inl e'))))
                     else (t2, None))
              in case second of
                   (t3, Some r) \<Rightarrow> (t3, r)
                 | (t3, None) \<Rightarrow>
                     (case speed_up t3 of
                        (t4, faster) \<Rightarrow>
                          (case reset_and_ready env t4 ''task speedup'' of
                             (t5, Inr u) \<Rightarrow> (t5, Inr True)
                           | (t5, Inl e') \<Rightarrow>
                               (if e' \<noteq> DecreaseDemandsError then (t5, Inl e')
                                else
                                  (let t6 = history_add WARNING ''decreasing demands failed'' t5 in
                                   case set_status env t6 S_ERROR
                                          ''Time cancel error detected but the time could not be increased neither could the time demand be decreased by speedup of increasing the number of cpus. Unrecoverable error.'' of
                                     (t7, Inl e'') \<Rightarrow> (t7, Inl e'')
                                   | (t7, Inr s) \<Rightarrow> (t7, Inr False))))))))"

text \<open>The loop over \<^verbatim>\<open>self.queue_errors\<close>; after the last error the method returns 0.\<close>

fun fix_queue_errors :: "Env \<Rightarrow> QueueError list \<Rightarrow> Task \<Rightarrow> Task \<times> (error + Ret)" where
  "fix_queue_errors env [] t = (t, Inr (RetInt 0))"
| "fix_queue_errors env (err # rest) t =
     (let t0 = history_add INFO (''fixing: '' @ queue_error_str err) t in
      case err of
        NodeFailureError nodes \<Rightarrow>
          (case nodes of
             Some ns \<Rightarrow>
               (case request_then_reset env t0 (exclude_nodes env) ''excluding nodes'' of
                  (t1, Inl e) \<Rightarrow> (t1, Inl FixQueueCriticalError)
                | (t1, Inr u) \<Rightarrow> fix_queue_errors env rest t1)
           | None \<Rightarrow>
               (case set_status env t0 S_ERROR ''Node error but no node identified.'' of
                  (t1, Inl e) \<Rightarrow> (t1, Inl e)
                | (t1, Inr s) \<Rightarrow> (t1, Inl FixQueueCriticalError)))
      | MemoryCancelError \<Rightarrow>
          (case fix_memory_cancel env t0 of
             (t1, Inl e) \<Rightarrow> (t1, Inl e)
           | (t1, Inr u) \<Rightarrow> (t1, Inr RetNone))
      | TimeCancelError \<Rightarrow>
          (case fix_time_cancel env t0 of
             (t1, Inl e) \<Rightarrow> (t1, Inl e)
           | (t1, Inr True) \<Rightarrow> (t1, Inr RetNone)
           | (t1, Inr False) \<Rightarrow> fix_queue_errors env rest t1)
      | OtherQueueError name \<Rightarrow>
          (case set_status env t0 S_ERROR
                  (''No solution provided for error '' @ name @ ''. Unrecoverable error.'') of
             (t1, Inl e) \<Rightarrow> (t1, Inl e)
           | (t1, Inr s) \<Rightarrow> fix_queue_errors env rest t1))"

text \<open>\<^verbatim>\<open>AbinitTask.fix_queue_critical\<close>.\<close>

definition fix_queue_critical :: "Env \<Rightarrow> Task \<Rightarrow> Task \<times> (error + Ret)" where
  "fix_queue_critical env t =
     (let t0 = history_add INFO ''fixing queue critical'' t in
      if queue_errors t0 = [] then
        (if mem_scales t0 \<or> load_scales t0 then
           (case (case increase_resources env of
                    Inl e \<Rightarrow> (t0, Inl e)
                  | Inr u \<Rightarrow> reset_from_scratch env t0) of
              (t1, Inr fired) \<Rightarrow> (t1, Inr (RetStr ''task.fix_queue_critical: increased resources''))
            | (t1, Inl e) \<Rightarrow>
                (if e \<noteq> ManagerIncreaseError then (t1, Inl e)
                 else
                   (case set_status env t1 S_ERROR
                           ''unknown queue error, could not increase resources any further'' of
                      (t2, Inl e') \<Rightarrow> (t2, Inl e')
                    | (t2, Inr s) \<Rightarrow> (t2, Inl FixQueueCriticalError))))
         else
           (case set_status env t0 S_ERROR ''unknown queue error, no options left'' of
              (t1, Inl e) \<Rightarrow> (t1, Inl e)
            | (t1, Inr s) \<Rightarrow> (t1, Inl FixQueueCriticalError)))
      else fix_queue_errors env (queue_errors t0) t0)"

section \<open>The task manager\<close>

text \<open>
  An entry of the list \<^verbatim>\<open>qadapters\<close> of the configuration: the truth value of
  \<^verbatim>\<open>d.get("enabled", False)\<close> and the adapter that \<^verbatim>\<open>make_qadapter(**d)\<close> builds, or the
  exception it raises (\<^verbatim>\<open>make_qadapter\<close> is defined in \<^verbatim>\<open>qadapters.py\<close>).
\<close>

record QAdapterDescr =
  enabled_value :: bool
  make_qadapter :: "error + QueueAdapter"

text \<open>
  The loop of \<^verbatim>\<open>TaskManager.__init__\<close> over the descriptors: an entry with a true
  \<^verbatim>\<open>enabled_value\<close> is skipped, an adapter with a positive priority is kept, one with
  priority 0 is neglected and a negative priority raises.
\<close>

fun build_qads :: "QAdapterDescr list \<Rightarrow> error + QueueAdapter list" where
  "build_qads [] = Inr []"
| "build_qads (d # ds) =
     (if enabled_value d then build_qads ds
      else
        (case make_qadapter d of
           Inl e \<Rightarrow> Inl e
         | Inr qad \<Rightarrow>
             (if priority qad > 0 then
                (case build_qads ds of Inl e \<Rightarrow> Inl e | Inr qs \<Rightarrow> Inr (qad # qs))
              else if priority qad < 0 then Inl ValueError
              else build_qads ds)))"

text \<open>
  \<^verbatim>\<open>TaskManager.__init__(**kwargs)\<close>: \<open>policy_arg\<close> is the outcome of
  \<^verbatim>\<open>TaskPolicy.as_policy(kwargs.pop("policy", None))\<close>, \<open>qadapters_arg\<close> the value of the key
  \<^verbatim>\<open>qadapters\<close> if present, \<open>other_keys\<close> the keywords left after the two were popped.
\<close>

definition TaskManager_init ::
  "error + TaskPolicy \<Rightarrow> QAdapterDescr list option \<Rightarrow> string list \<Rightarrow> error + TaskManager" where
  "TaskManager_init policy_arg qadapters_arg other_keys =
     (case policy_arg of
        Inl e \<Rightarrow> Inl e
      | Inr pol \<Rightarrow>
          (case qadapters_arg of
             None \<Rightarrow> Inl KeyError
           | Some ds \<Rightarrow>
               (case build_qads ds of
                  Inl e \<Rightarrow> Inl e
                | Inr qs \<Rightarrow>
                    (if qs = [] then Inl ValueError
                     else
                       (let sorted_qads = sort_key priority qs;
                            priorities = map priority sorted_qads
                        in if length priorities \<noteq> length (remdups priorities) then Inl ValueError
                           else if other_keys \<noteq> [] then Inl ValueError
                           else Inr \<lparr>policy = pol, qads = sorted_qads, qadpos = 0\<rparr>)))))"

section \<open>Example inputs\<close>

text \<open>Two configurations, conditions and policies used to run the definitions on.\<close>

definition conf_a :: ParalConf where
  "conf_a = \<lparr>mpi_ncpus = 4, omp_ncpus = 1, mem_per_cpu = 100, efficiency = 1 / 2, vars = []\<rparr>"

definition conf_b :: ParalConf where
  "conf_b = \<lparr>mpi_ncpus = 2, omp_ncpus = 1, mem_per_cpu = 300, efficiency = 9 / 10, vars = []\<rparr>"

definition reject_all :: Condition where
  "reject_all = \<lparr>cmap_nonempty = True, evaluate = (\<lambda>obj. Inr False)\<rparr>"

definition empty_condition :: Condition where
  "empty_condition = \<lparr>cmap_nonempty = False, evaluate = (\<lambda>obj. Inr True)\<rparr>"

definition policy_reject_all :: TaskPolicy where
  "policy_reject_all =
     \<lparr>autoparal = 1, condition = reject_all, vars_condition = reject_all,
      precedence = ''autoparal_conf'', autoparal_priorities = [PName ''speedup''],
      frozen_timeout = 3600\<rparr>"

definition policy_speedup_mem :: TaskPolicy where
  "policy_speedup_mem =
     \<lparr>autoparal = 1, condition = empty_condition, vars_condition = empty_condition,
      precedence = ''autoparal_conf'',
      autoparal_priorities = [PName ''speedup'', PName ''mem_per_proc''],
      frozen_timeout = 3600\<rparr>"

text \<open>
  The entries that the loop of \<^verbatim>\<open>TaskManager.__init__\<close> does not skip: the test is
  \<^verbatim>\<open>if d.get("enabled", False): continue\<close>, so these are the entries whose \<^verbatim>\<open>enabled\<close> is
  false or absent. The comment above the loop says the opposite, "Neglect entry if
  priority == 0 or `enabled: no`".
\<close>

definition unskipped_descrs :: "QAdapterDescr list \<Rightarrow> QAdapterDescr list" where
  "unskipped_descrs ds = filter (\<lambda>d. \<not> enabled_value d) ds"

text \<open>
  Example descriptors with the given priority: one without the key \<^verbatim>\<open>enabled\<close>, and one
  with \<^verbatim>\<open>enabled: True\<close>.
\<close>

definition descr :: "int \<Rightarrow> QAdapterDescr" where
  "descr p = \<lparr>enabled_value = False, make_qadapter = Inr \<lparr>priority = p, hint_cores = 1\<rparr>\<rparr>"

definition en_descr :: "int \<Rightarrow> QAdapterDescr" where
  "en_descr p = \<lparr>enabled_value = True, make_qadapter = Inr \<lparr>priority = p, hint_cores = 1\<rparr>\<rparr>"

text \<open>
  A policy without conditions, a manager with one adapter, a task as its constructor leaves
  it (never started, empty working directory), and an environment in which the queue adapter
  cannot give more cores but can give more memory.
\<close>

definition policy_default :: TaskPolicy where
  "policy_default =
     \<lparr>autoparal = 1, condition = empty_condition, vars_condition = empty_condition,
      precedence = ''autoparal_conf'', autoparal_priorities = [PName ''speedup''],
      frozen_timeout = 3600\<rparr>"

definition manager0 :: TaskManager where
  "manager0 = \<lparr>policy = policy_default, qads = [\<lparr>priority = 1, hint_cores = 1\<rparr>], qadpos = 0\<rparr>"

definition task0 :: Task where
  "task0 =
     \<lparr>family = AbinitTask, status = S_INIT, finalized = False, collinear_done = False,
      spin_mode = ''polarized'', gwmem = None, num_restarts = 0,
      datetimes = TaskDateTimes_new 0, history = [], returncode = Some 0,
      queue_errors = [], abi_errors = [], mem_scales = True, load_scales = True,
      manager = manager0, gc_policy = None, workdir = [], reset_dir = None,
      on_ok_calls = 0, signals = [], cleaned = 0\<rparr>"

definition running_report :: EventReport where
  "running_report =
     \<lparr>run_completed = False, events = [], start_datetime = None, end_datetime = None\<rparr>"

definition env0 :: Env where
  "env0 =
     \<lparr>now = 10000, asctime = ''Wed Nov  4 12:00:00 2026'', fix_ofiles_raises = False,
      unmovable = [], parse = (\<lambda>f. Inr running_report), restart_file = Inr None,
      launch = Inr True, more_cores = Inl QueueAdapterError, more_mem_per_proc = Inr (),
      more_time = Inr (), qad_exclude_nodes = Inr ()\<rparr>"

text \<open>
  A task in \<^verbatim>\<open>S_ERROR\<close> whose job script returned 1, a locked task, a locked task with an
  abort file in its working directory, and a crashed task with the output, the lock file
  and the queue error file of its last run and the times of that run.
\<close>

definition task_errored :: Task where
  "task_errored = task0\<lparr>status := S_ERROR, returncode := Some 1\<rparr>"

definition task_locked :: Task where
  "task_locked = task0\<lparr>status := S_LOCKED\<rparr>"

definition task_locked_abort :: Task where
  "task_locked_abort =
     task0\<lparr>status := S_LOCKED, workdir := [(mpiabort_file, \<lparr>fsize = 10, mtime = 5\<rparr>)]\<rparr>"

definition task_crashed :: Task where
  "task_crashed =
     task0\<lparr>status := S_QCRITICAL,
            datetimes := \<lparr>dt_init = 0, submission = Some 10, dt_start = Some 20, dt_end = Some 30\<rparr>,
            workdir := [(output_file, \<lparr>fsize = 10, mtime = 5\<rparr>),
                        (start_lockfile, \<lparr>fsize = 10, mtime = 5\<rparr>),
                        (qerr_file, \<lparr>fsize = 10, mtime = 5\<rparr>)]\<rparr>"

text \<open>
  A running task whose output file was last changed 3601 seconds before the time of
  \<open>env0\<close> (\<^verbatim>\<open>frozen_timeout\<close> is 3600), and one whose file changed one second before.
\<close>

definition task_frozen :: Task where
  "task_frozen =
     task0\<lparr>status := S_RUN,
            workdir := [(output_file, \<lparr>fsize = 100, mtime = 6399\<rparr>),
                        (log_file, \<lparr>fsize = 100, mtime = 6399\<rparr>)]\<rparr>"

definition task_alive :: Task where
  "task_alive =
     task0\<lparr>status := S_RUN,
            workdir := [(output_file, \<lparr>fsize = 100, mtime = 9999\<rparr>),
                        (log_file, \<lparr>fsize = 100, mtime = 9999\<rparr>)]\<rparr>"

text \<open>
  Two running tasks whose files differ in age: the log \<^verbatim>\<open>run.log\<close> 3601 seconds old and
  the main output \<^verbatim>\<open>run.abo\<close> one second old, and the other way round.
\<close>

definition task_stale_log :: Task where
  "task_stale_log =
     task0\<lparr>status := S_RUN,
            workdir := [(output_file, \<lparr>fsize = 100, mtime = 9999\<rparr>),
                        (log_file, \<lparr>fsize = 100, mtime = 6399\<rparr>)]\<rparr>"

definition task_stale_output :: Task where
  "task_stale_output =
     task0\<lparr>status := S_RUN,
            workdir := [(output_file, \<lparr>fsize = 100, mtime = 6399\<rparr>),
                        (log_file, \<lparr>fsize = 100, mtime = 9999\<rparr>)]\<rparr>"

text \<open>
  A sequence of calls of \<^verbatim>\<open>set_status\<close> on one task, each with the environment it runs
  in. A call that raises leaves the task as it was when the exception was raised.
\<close>

fun set_status_calls :: "(Env \<times> Status \<times> string) list \<Rightarrow> Task \<Rightarrow> Task" where
  "set_status_calls [] t = t"
| "set_status_calls ((env, new_status, msg) # calls) t =
     set_status_calls calls (fst (set_status env t new_status msg))"

text \<open>
  The number of calls of \<^verbatim>\<open>on_ok\<close> made so far plus the number still possible: one
  while the task is not finalized, and one more for a
  \<^verbatim>\<open>CollinearThenNonCollinearScfTask\<close> before its collinear run is done.
\<close>

definition hook_budget :: "Task \<Rightarrow> nat" where
  "hook_budget t =
     on_ok_calls t + (if finalized t then 0 else 1)
       + (if family t = CollinearThenNonCollinearScfTask \<and> \<not> collinear_done t then 1 else 0)"

text \<open>
  A running \<^verbatim>\<open>CollinearThenNonCollinearScfTask\<close>, and an environment in which its restart
  finds a \<^verbatim>\<open>WFK\<close> file.
\<close>

definition task_collinear :: Task where
  "task_collinear = task0\<lparr>family := CollinearThenNonCollinearScfTask, status := S_RUN\<rparr>"

definition env_wfk :: Env where
  "env_wfk = env0\<lparr>restart_file := Inr (Some ''out_WFK'')\<rparr>"

text \<open>Two states of a task agree on what decides the calls of \<^verbatim>\<open>on_ok\<close>.\<close>

definition same_hook_state :: "Task \<Rightarrow> Task \<Rightarrow> bool" where
  "same_hook_state t' t =
     (family t' = family t \<and> finalized t' = finalized t
      \<and> collinear_done t' = collinear_done t \<and> on_ok_calls t' = on_ok_calls t)"

text \<open>
  A task whose job was cancelled for its memory, an environment in which the adapter can
  give neither more cores nor more memory, and the test that some entry of a history
  contains a text.
\<close>

definition task_memory_cancelled :: Task where
  "task_memory_cancelled = task0\<lparr>status := S_QCRITICAL, queue_errors := [MemoryCancelError]\<rparr>"

definition env_no_more :: Env where
  "env_no_more = env0\<lparr>more_mem_per_proc := Inl QueueAdapterError\<rparr>"

definition mentions :: "string \<Rightarrow> log \<Rightarrow> bool" where
  "mentions needle lg = list_ex (\<lambda>entry. contains_str needle (snd entry)) lg"

text \<open>Two states of a task are both locked or both not locked.\<close>

definition same_lock :: "Task \<Rightarrow> Task \<Rightarrow> bool" where
  "same_lock t' t = ((status t' = S_LOCKED) = (status t = S_LOCKED))"

section \<open>Sorting by memory without memory estimates\<close>

lemma no_positive_mem:
  "list_all (\<lambda>c. mem_per_proc c = 0) confs \<Longrightarrow> \<not> list_ex (\<lambda>c. mem_per_proc c > 0) confs"
  by (induction confs) auto

text \<open>
  Claim C10. When every configuration reports \<^verbatim>\<open>mem_per_proc\<close> equal to 0.0,
  \<^verbatim>\<open>sort_by_mem_per_proc\<close> leaves the order of the configurations unchanged, whatever the
  \<^verbatim>\<open>reverse\<close> flag: the sort is performed only when some configuration has
  \<^verbatim>\<open>mem_per_proc > 0\<close>.
\<close>

theorem sort_by_mem_per_proc_zero_identity:
  "list_all (\<lambda>c. mem_per_proc c = 0) confs \<Longrightarrow> sort_by_mem_per_proc reverse confs = confs"
  using no_positive_mem [of confs] by (simp add: sort_by_mem_per_proc_def)

theorem sort_by_mem_per_proc_zero_identity_witness:
  "list_all (\<lambda>c. mem_per_proc c = 0)
     [\<lparr>mpi_ncpus = 4, omp_ncpus = 1, mem_per_cpu = 0, efficiency = 1 / 2, vars = []\<rparr>,
      \<lparr>mpi_ncpus = 2, omp_ncpus = 1, mem_per_cpu = 0, efficiency = 9 / 10, vars = []\<rparr>]
   \<and> sort_by_mem_per_proc False
     [\<lparr>mpi_ncpus = 4, omp_ncpus = 1, mem_per_cpu = 0, efficiency = 1 / 2, vars = []\<rparr>,
      \<lparr>mpi_ncpus = 2, omp_ncpus = 1, mem_per_cpu = 0, efficiency = 9 / 10, vars = []\<rparr>]
     = [\<lparr>mpi_ncpus = 4, omp_ncpus = 1, mem_per_cpu = 0, efficiency = 1 / 2, vars = []\<rparr>,
        \<lparr>mpi_ncpus = 2, omp_ncpus = 1, mem_per_cpu = 0, efficiency = 9 / 10, vars = []\<rparr>]"
proof -
  have h: "list_all (\<lambda>c. mem_per_proc c = 0)
     [\<lparr>mpi_ncpus = 4, omp_ncpus = 1, mem_per_cpu = 0, efficiency = 1 / 2, vars = []\<rparr>,
      \<lparr>mpi_ncpus = 2, omp_ncpus = 1, mem_per_cpu = 0, efficiency = 9 / 10, vars = []\<rparr>]"
    by (simp add: mem_per_proc_def)
  show ?thesis
    using h sort_by_mem_per_proc_zero_identity [OF h, of False] by simp
qed

section \<open>The filters of the selection never empty the pool\<close>

lemma select_with_condition_None:
  "select_with_condition c None hints =
     (Inr (filter (\<lambda>conf. fst (Condition_call c (ConfObj conf))) hints),
      concat (map (\<lambda>conf. snd (Condition_call c (ConfObj conf))) hints))"
  by (induction hints) (auto simp: select_obj_def split: prod.splits)

lemma select_with_condition_vars:
  "select_with_condition c (Some ''vars'') hints =
     (Inr (filter (\<lambda>conf. fst (Condition_call c (VarsObj (vars conf)))) hints),
      concat (map (\<lambda>conf. snd (Condition_call c (VarsObj (vars conf)))) hints))"
  by (induction hints) (auto simp: select_obj_def split: prod.splits)

text \<open>
  Claim C5. For a non-empty list of configurations and any policy, each of the two filters
  of \<^verbatim>\<open>get_ordered_with_policy\<close> (the condition on whole configurations and the condition
  on \<^verbatim>\<open>vars\<close>) returns a non-empty list without raising. If the condition is set and no
  configuration satisfies it, the list is the one before the filter and the warning
  "Empty list of configurations" is logged; if the condition is set and some configuration
  satisfies it, the list is the configurations that satisfy it; if no condition is set
  nothing is changed or logged.
\<close>

theorem selection_never_empties:
  assumes "hints \<noteq> []"
  shows "(\<exists>new lg. apply_policy_condition pol hints = (Inr new, lg) \<and> new \<noteq> [] \<and>
            (if cmap_nonempty (condition pol) \<and>
                filter (\<lambda>conf. fst (Condition_call (condition pol) (ConfObj conf))) hints = []
             then new = hints \<and>
                  (WARNING, ''Empty list of configurations after policy.condition'') \<in> set lg
             else if cmap_nonempty (condition pol)
             then new = filter (\<lambda>conf. fst (Condition_call (condition pol) (ConfObj conf))) hints
             else new = hints \<and> lg = []))
       \<and> (\<exists>new lg. apply_policy_vars_condition pol hints = (Inr new, lg) \<and> new \<noteq> [] \<and>
            (if cmap_nonempty (vars_condition pol) \<and>
                filter (\<lambda>conf. fst (Condition_call (vars_condition pol) (VarsObj (vars conf)))) hints = []
             then new = hints \<and>
                  (WARNING, ''Empty list of configurations after policy.vars_condition'') \<in> set lg
             else if cmap_nonempty (vars_condition pol)
             then new = filter (\<lambda>conf. fst (Condition_call (vars_condition pol) (VarsObj (vars conf)))) hints
             else new = hints \<and> lg = []))"
  using assms
  by (simp add: apply_policy_condition_def apply_policy_vars_condition_def
        select_with_condition_None select_with_condition_vars)

theorem selection_never_empties_witness:
  "[conf_a, conf_b] \<noteq> []
   \<and> apply_policy_condition policy_reject_all [conf_a, conf_b] =
       (Inr [conf_a, conf_b],
        [(INFO, ''Applying condition''),
         (WARNING, ''Empty list of configurations after policy.condition'')])
   \<and> apply_policy_vars_condition policy_reject_all [conf_a, conf_b] =
       (Inr [conf_a, conf_b],
        [(INFO, ''Applying vars_condition''),
         (WARNING, ''Empty list of configurations after policy.vars_condition'')])"
  using selection_never_empties [of "[conf_a, conf_b]" policy_reject_all]
  by (simp add: apply_policy_condition_def apply_policy_vars_condition_def
        policy_reject_all_def reject_all_def Condition_call_def select_obj_def)

section \<open>Ranking by several priorities\<close>

lemma memory_keyword_refused:
  "SparseHistogram_kwargs confs key [(''memory'', 1024)] = Inl TypeError"
  by (simp add: SparseHistogram_kwargs_def)

lemma mem_per_proc_priority_raises:
  "multidimensional_optimization (PName ''mem_per_proc'' # priorities) confs = Inl TypeError"
  by (simp add: opts_def memory_keyword_refused)

lemma speedup_hist:
  "SparseHistogram_kwargs [conf_a, conf_b] (conf_attr ''speedup'') [(''step'', 1)]
     = Inr ([9 / 5], [[conf_a, conf_b]])"
  by code_simp

text \<open>
  Claim C7. The claim gives the histogram of \<^verbatim>\<open>mem_per_proc\<close> a bucket width of 1024 MB
  and keeps its lowest bucket. The table \<^verbatim>\<open>opts\<close> passes the width under the keyword
  \<^verbatim>\<open>memory\<close>, which \<^verbatim>\<open>SparseHistogram\<close> does not accept (the other two entries use \<^verbatim>\<open>step\<close>):
  with the priorities \<^verbatim>\<open>speedup\<close>, \<^verbatim>\<open>mem_per_proc\<close> and two configurations that fit the
  ceiling, \<^verbatim>\<open>get_ordered_with_policy\<close> raises \<^verbatim>\<open>TypeError\<close> and no bucket is kept.
\<close>

theorem memory_priority_type_error:
  "get_ordered_with_policy policy_speedup_mem 8 [conf_a, conf_b] = (Inl TypeError, [])"
proof -
  have ceiling: "filter (\<lambda>c. num_cores c \<le> 8) [conf_a, conf_b] = [conf_a, conf_b]"
    by (simp add: num_cores_def mpi_procs_def omp_threads_def conf_a_def conf_b_def)
  have ranked: "rank_hints policy_speedup_mem [conf_a, conf_b] = (Inl TypeError, [])"
    by (simp add: rank_hints_def policy_speedup_mem_def opts_def speedup_hist
          memory_keyword_refused)
  have c1: "apply_policy_condition policy_speedup_mem [conf_a, conf_b] = (Inr [conf_a, conf_b], [])"
    by (simp add: apply_policy_condition_def policy_speedup_mem_def empty_condition_def)
  have c2: "apply_policy_vars_condition policy_speedup_mem [conf_a, conf_b] = (Inr [conf_a, conf_b], [])"
    by (simp add: apply_policy_vars_condition_def policy_speedup_mem_def empty_condition_def)
  show ?thesis
    unfolding get_ordered_with_policy_def Let_def ceiling
    by (simp add: c1 c2 ranked)
qed

section \<open>Construction of the task manager\<close>

lemma build_qads_unskipped: "build_qads ds = build_qads (unskipped_descrs ds)"
  by (induction ds) (auto simp: unskipped_descrs_def split: sum.splits)

lemma build_qads_Inr:
  "build_qads ds = Inr qs \<Longrightarrow> list_all (\<lambda>d. \<not> enabled_value d) ds \<Longrightarrow>
     list_all (\<lambda>d. \<exists>q. make_qadapter d = Inr q \<and> priority q \<ge> 0) ds
     \<and> qs = filter (\<lambda>q. priority q > 0) (map (\<lambda>d. projr (make_qadapter d)) ds)"
  by (induction ds arbitrary: qs) (auto split: sum.splits if_splits)

lemma not_distinct_refused:
  assumes "\<not> distinct (map priority qs)"
  shows "length (map priority (sort_key priority qs)) \<noteq>
         length (remdups (map priority (sort_key priority qs)))"
proof -
  have "\<not> distinct (map priority (sort_key priority qs))"
    using assms by (metis distinct_map distinct_sort set_sort inj_on_def) 
  then show ?thesis
    by (metis distinct_remdups length_remdups_eq remdups_id_iff_distinct)
qed


lemma dup_in_filter:
  assumes "i < j" "j < length ys" "P (ys ! i)" "P (ys ! j)" "f (ys ! i) = f (ys ! j)"
  shows "\<not> distinct (map f (filter P ys))"
proof -
  have ys: "ys = take i ys @ ys ! i # drop (Suc i) ys"
    using assms by (simp add: id_take_nth_drop)
  have mem: "ys ! j \<in> set (drop (Suc i) ys)"
  proof -
    have "drop (Suc i) ys ! (j - Suc i) = ys ! j" using assms by simp
    moreover have "j - Suc i < length (drop (Suc i) ys)" using assms by simp
    ultimately show ?thesis by (metis nth_mem)
  qed
  have "f (ys ! i) \<in> set (map f (filter P (drop (Suc i) ys)))"
    using mem assms by force
  moreover have "map f (filter P ys) =
     map f (filter P (take i ys)) @ f (ys ! i) # map f (filter P (drop (Suc i) ys))"
    using assms(3) by (subst ys) simp
  ultimately show ?thesis by simp
qed


lemma TaskManager_init_dup:
  assumes "i < j" "j < length (unskipped_descrs ds)"
    "make_qadapter (unskipped_descrs ds ! i) = Inr q1"
    "make_qadapter (unskipped_descrs ds ! j) = Inr q2"
    "priority q1 = priority q2" "0 < priority q1"
  shows "isl (TaskManager_init pa (Some ds) keys)"
proof (cases pa)
  case (Inl e)
  then show ?thesis by (simp add: TaskManager_init_def)
next
  case (Inr pol)
  show ?thesis
  proof (cases "build_qads ds")
    case (Inl e)
    then show ?thesis using Inr by (simp add: TaskManager_init_def)
  next
    case (Inr qs)
    let ?ys = "map (\<lambda>d. projr (make_qadapter d)) (unskipped_descrs ds)"
    have "build_qads (unskipped_descrs ds) = Inr qs"
      using Inr build_qads_unskipped by simp
    moreover have "list_all (\<lambda>d. \<not> enabled_value d) (unskipped_descrs ds)"
      by (simp add: unskipped_descrs_def list_all_iff)
    ultimately have qs: "qs = filter (\<lambda>q. priority q > 0) ?ys"
      using build_qads_Inr by blast
    have "\<not> distinct (map priority (filter (\<lambda>q. priority q > 0) ?ys))"
      using assms by (intro dup_in_filter [of i j]) simp_all
    then have "\<not> distinct (map priority qs)" using qs by simp
    then have "length (map priority (sort_key priority qs)) \<noteq>
         length (remdups (map priority (sort_key priority qs)))"
      by (rule not_distinct_refused)
    then show ?thesis
      using Inr \<open>pa = Inr pol\<close> by (simp add: TaskManager_init_def Let_def)
  qed
qed

lemma TaskManager_init_negative:
  assumes "d \<in> set (unskipped_descrs ds)" "make_qadapter d = Inr q" "priority q < 0"
  shows "isl (TaskManager_init pa (Some ds) keys)"
proof (cases "build_qads ds")
  case (Inl e)
  then show ?thesis by (cases pa) (simp_all add: TaskManager_init_def)
next
  case (Inr qs)
  have "build_qads (unskipped_descrs ds) = Inr qs"
    using Inr build_qads_unskipped by simp
  moreover have "list_all (\<lambda>d. \<not> enabled_value d) (unskipped_descrs ds)"
    by (simp add: unskipped_descrs_def list_all_iff)
  ultimately have "list_all (\<lambda>d. \<exists>q. make_qadapter d = Inr q \<and> priority q \<ge> 0) (unskipped_descrs ds)"
    using build_qads_Inr by blast
  then have False using assms by (auto simp: list_all_iff)
  then show ?thesis ..
qed

lemma TaskManager_init_empty:
  assumes "unskipped_descrs ds = []"
  shows "isl (TaskManager_init pa (Some ds) keys)"
proof -
  have "build_qads ds = Inr []"
    using assms build_qads_unskipped [of ds] by simp
  then show ?thesis by (cases pa) (simp_all add: TaskManager_init_def)
qed

text \<open>
  For the entries that the loop does not skip, \<^verbatim>\<open>TaskManager.__init__\<close> raises, whatever
  the policy and the other keywords, when two of them have the same positive priority, when
  one has a negative priority, and when there is none.
\<close>

lemma TaskManager_init_rejects_unskipped:
  "(i < j \<and> j < length (unskipped_descrs ds)
      \<and> make_qadapter (unskipped_descrs ds ! i) = Inr q1
      \<and> make_qadapter (unskipped_descrs ds ! j) = Inr q2
      \<and> priority q1 = priority q2 \<and> 0 < priority q1
      \<longrightarrow> isl (TaskManager_init pa (Some ds) keys))
   \<and> (d \<in> set (unskipped_descrs ds) \<and> make_qadapter d = Inr q \<and> priority q < 0
      \<longrightarrow> isl (TaskManager_init pa (Some ds) keys))
   \<and> (unskipped_descrs ds = [] \<longrightarrow> isl (TaskManager_init pa (Some ds) keys))"
  using TaskManager_init_dup TaskManager_init_negative TaskManager_init_empty by blast

text \<open>
  Claim C9. The claim says that two adapters with the same positive priority, and an adapter
  with a negative priority, make the construction fail. The loop skips the entries whose
  \<^verbatim>\<open>enabled\<close> is true, against its own comment: with two adapters of priority 1 marked
  \<^verbatim>\<open>enabled: True\<close> and a third adapter of priority 2, the construction succeeds and the
  manager holds the third adapter alone; with an adapter of priority -3 marked
  \<^verbatim>\<open>enabled: True\<close> and an adapter of priority 2, it succeeds as well.
\<close>

theorem enabled_adapters_skipped:
  "TaskManager_init (Inr policy_default) (Some [en_descr 1, en_descr 1, descr 2]) [] =
     Inr \<lparr>policy = policy_default, qads = [\<lparr>priority = 2, hint_cores = 1\<rparr>], qadpos = 0\<rparr>
   \<and> TaskManager_init (Inr policy_default) (Some [en_descr (- 3), descr 2]) [] =
     Inr \<lparr>policy = policy_default, qads = [\<lparr>priority = 2, hint_cores = 1\<rparr>], qadpos = 0\<rparr>"
  by (simp add: TaskManager_init_def en_descr_def descr_def)

text \<open>Without the key \<^verbatim>\<open>enabled\<close> the same priorities are refused.\<close>

lemma duplicate_and_negative_refused:
  "TaskManager_init (Inr policy_default) (Some [descr 1, descr 1, descr 2]) [] = Inl ValueError
   \<and> TaskManager_init (Inr policy_default) (Some [descr (- 3), descr 2]) [] = Inl ValueError"
  by (simp add: TaskManager_init_def descr_def)

section \<open>Status derivation for locked and errored tasks\<close>

text \<open>
  For a locked task whose job script returned 1, \<^verbatim>\<open>check_status\<close> does not return the
  status: it calls \<^verbatim>\<open>set_status\<close>, which raises.
\<close>

lemma check_status_locked_raises:
  "snd (check_status env0 (task_locked\<lparr>returncode := Some 1\<rparr>)) = Inl RuntimeError"
  by code_simp

text \<open>
  Claim C1. The claim says that \<^verbatim>\<open>check_status\<close> returns the status of a task in
  \<^verbatim>\<open>S_LOCKED\<close> or \<^verbatim>\<open>S_ERROR\<close> unchanged. The test of the black list is commented out in
  the source: for a task in \<^verbatim>\<open>S_ERROR\<close> whose job script returned 1, \<^verbatim>\<open>check_status\<close>
  derives the status again, sets \<^verbatim>\<open>S_QCRITICAL\<close> and returns it.
\<close>

theorem check_status_rederives_error:
  "status task_errored = S_ERROR
   \<and> status (fst (check_status env0 task_errored)) = S_QCRITICAL
   \<and> snd (check_status env0 task_errored) = Inr S_QCRITICAL"
  by code_simp

section \<open>Reset from scratch\<close>

lemma set_status_transition_datetimes_READY:
  "set_status_transition env t S_READY msg = Inr t' \<Longrightarrow> datetimes t' = datetimes t"
  by (auto simp: set_status_transition_def Let_def history_add_def split: if_splits)

lemma move_file_datetimes: "datetimes (move_file env n f t) = datetimes t"
  by (simp add: move_file_def history_add_def split: option.splits)

lemma internal_restart_False_datetimes:
  "datetimes (fst (internal_restart env t False)) = datetimes t"
  by (auto simp: internal_restart_def Let_def history_add_def TaskDateTimes_reset_def
        dest: set_status_transition_datetimes_READY split: sum.splits)

text \<open>
  Whatever the task and the environment, the datetimes of the task after
  \<^verbatim>\<open>reset_from_scratch\<close> are the ones before it.
\<close>

lemma reset_from_scratch_datetimes:
  "datetimes (fst (reset_from_scratch env t)) = datetimes t"
  by (auto simp: reset_from_scratch_def Let_def internal_restart_False_datetimes
        move_file_datetimes TaskDateTimes_reset_def split: option.splits sum.splits)

lemma reset_from_scratch_crashed_files:
  "workdir (fst (reset_from_scratch env0 task_crashed)) = []
   \<and> reset_dir (fst (reset_from_scratch env0 task_crashed)) =
       Some \<lparr>counter = Some ''1'',
             moved = [(''queue.qerr_1'', \<lparr>fsize = 10, mtime = 5\<rparr>),
                      (''run.abo_1'', \<lparr>fsize = 10, mtime = 5\<rparr>)]\<rparr>"
  by code_simp

text \<open>
  Claim C4. The claim says that after \<^verbatim>\<open>reset_from_scratch\<close> the submission, start and
  end datetimes are back to their unset values. \<^verbatim>\<open>TaskDateTimes.reset\<close> only rebinds its
  local name, so the times stay: for a crashed task with the times 10, 20 and 30 of its last
  run, \<^verbatim>\<open>reset_from_scratch\<close> sets \<^verbatim>\<open>S_READY\<close> and counts the restart, and the three times
  are still 10, 20 and 30. (The files of the last run are moved into \<^verbatim>\<open>_reset\<close> and the lock
  file is removed, as the claim says: \<open>reset_from_scratch_crashed_files\<close>.)
\<close>

theorem reset_from_scratch_keeps_datetimes:
  "datetimes task_crashed =
     \<lparr>dt_init = 0, submission = Some 10, dt_start = Some 20, dt_end = Some 30\<rparr>
   \<and> datetimes (fst (reset_from_scratch env0 task_crashed)) =
     \<lparr>dt_init = 0, submission = Some 10, dt_start = Some 20, dt_end = Some 30\<rparr>
   \<and> status (fst (reset_from_scratch env0 task_crashed)) = S_READY
   \<and> num_restarts (fst (reset_from_scratch env0 task_crashed)) = 1"
  by code_simp

section \<open>A task that seems frozen\<close>

text \<open>
  For a status other than \<^verbatim>\<open>S_DONE\<close> and \<^verbatim>\<open>S_OK\<close>, \<^verbatim>\<open>set_status\<close> is its first part:
  this is what \<open>start\<close> and \<open>internal_restart\<close> rely on.
\<close>

lemma set_status_without_callbacks:
  "new_status \<noteq> S_DONE \<Longrightarrow> new_status \<noteq> S_OK \<Longrightarrow>
   set_status env t new_status msg =
     (case set_status_transition env t new_status msg of
        Inl e \<Rightarrow> (t, Inl e)
      | Inr t1 \<Rightarrow> (t1, Inr new_status))"
  by (simp add: set_status_def split: sum.splits)

lemma starts_with_append: "starts_with n (n @ b)"
  by (induction n) simp_all

lemma contains_str_append: "contains_str n (a @ n @ b)"
proof (induction a)
  case Nil
  show ?case
  proof (cases "n @ b")
    case Nil
    then show ?thesis by simp
  next
    case (Cons c cs)
    have "starts_with n (n @ b)" by (rule starts_with_append)
    then show ?thesis using Cons by simp
  qed
next
  case (Cons c a)
  then show ?case by simp
qed

lemma frozen_msg_prefix:
  "\<exists>b. truncate_msg (frozen_msg k) = ''Task seems to be '' @ ''frozen'' @ b"
proof -
  obtain r where r: "frozen_msg k = ''Task seems to be '' @ ''frozen'' @ r"
    by (simp add: frozen_msg_def)
  have "take 2000 (frozen_msg k) = ''Task seems to be '' @ ''frozen'' @ take 1977 r"
    by (simp add: r)
  then show ?thesis
    using r by (auto simp: truncate_msg_def simp del: append.simps)
qed

lemma get_event_report_parsed:
  assumes "file_exists (workdir t) log_file" "\<not> file_exists (workdir t) mpiabort_file"
    "parse env log_file = Inr report"
  shows "get_event_report env t = (t, Inr (Some report))"
  using assms by (simp add: get_event_report_def parse_log_and_abort_def)

lemma check_report_falls_through:
  assumes "file_exists (workdir t) log_file" "\<not> file_exists (workdir t) mpiabort_file"
    "parse env log_file = Inr report" "\<not> run_completed report" "errors report = []"
    "\<not> (file_exists (workdir t) stderr_file \<and> \<not> err_msg
         \<and> file_exists (workdir t) qerr_file \<and> \<not> qerr_info)"
  shows "check_report env t err_msg qerr_info = (t, None)"
  using assms by (auto simp: check_report_def get_event_report_parsed)

text \<open>
  Claim C8, as amended. The file whose age decides is the main output file \<^verbatim>\<open>run.abo\<close>
  (\<^verbatim>\<open>self.output_file\<close>), not the log \<^verbatim>\<open>run.log\<close>. Take a task that is neither locked nor
  in error, whose job script returned 0, without abort file, whose main output file exists,
  and whose log parses into a report that is not complete and has no errors, with the test
  "stderr and queue stderr exist and are empty" failing (so that no earlier return of
  \<^verbatim>\<open>check_status\<close> is taken). If the main output file was last modified more than
  \<^verbatim>\<open>frozen_timeout\<close> seconds ago, \<^verbatim>\<open>check_status\<close> sets and returns \<^verbatim>\<open>S_ERROR\<close> and the
  last entry of the history is a message that contains "frozen"; otherwise it sets and
  returns \<^verbatim>\<open>S_RUN\<close>, whatever the age of the log.
\<close>

theorem frozen_detection:
  assumes "status t \<noteq> S_LOCKED" "status t \<noteq> S_ERROR"
    and "returncode t = Some 0"
    and "\<not> file_exists (workdir t) mpiabort_file"
    and "map_of (workdir t) output_file = Some f"
    and "file_exists (workdir t) log_file" "parse env log_file = Inr report"
    and "\<not> run_completed report" "errors report = []"
    and "\<not> (file_exists (workdir t) stderr_file \<and> getsize (workdir t) stderr_file = 0
            \<and> file_exists (workdir t) qerr_file \<and> getsize (workdir t) qerr_file = 0)"
  shows "(now env - mtime f > of_int (frozen_timeout (policy (manager t))) \<longrightarrow>
           snd (check_status env t) = Inr S_ERROR
           \<and> status (fst (check_status env t)) = S_ERROR
           \<and> (\<exists>m. last (history (fst (check_status env t))) = (INFO, m)
                    \<and> contains_str ''frozen'' m))
       \<and> (now env - mtime f \<le> of_int (frozen_timeout (policy (manager t))) \<longrightarrow>
           snd (check_status env t) = Inr S_RUN
           \<and> status (fst (check_status env t)) = S_RUN)"
proof -
  let ?err = "getsize (workdir t) stderr_file \<noteq> 0"
  let ?qerr = "getsize (workdir t) qerr_file \<noteq> 0"
  let ?t2 = "if ?err then history_add WARNING ''Found error message'' t else t"
  have ex: "file_exists (workdir t) output_file"
    using assms(5) by (simp add: file_exists_def)
  have rep: "check_report env t ?err ?qerr = (t, None)"
    using assms by (intro check_report_falls_through [of t env report]) auto
  have t2: "status ?t2 = status t" "workdir ?t2 = workdir t" "manager ?t2 = manager t"
    by (simp_all add: history_add_def)
  have cs: "check_status env t =
     (if now env - mtime f > of_int (frozen_timeout (policy (manager t)))
      then set_status env ?t2 S_ERROR (frozen_msg (frozen_timeout (policy (manager t))))
      else set_status env ?t2 S_RUN
             ''final option: nothing seems to be wrong, the job must still be running'')"
    using assms(3,4,5) ex rep t2
    by (simp add: check_status_def Let_def)
  have frozen: "snd (set_status env ?t2 S_ERROR msg) = Inr S_ERROR
      \<and> status (fst (set_status env ?t2 S_ERROR msg)) = S_ERROR
      \<and> last (history (fst (set_status env ?t2 S_ERROR msg))) =
          (INFO, ''Status changed to ERROR. msg: '' @ truncate_msg msg)" for msg
    using assms(1,2) t2
    by (simp add: set_status_without_callbacks set_status_transition_def Let_def history_add_def)
  have running: "snd (set_status env ?t2 S_RUN msg) = Inr S_RUN
      \<and> status (fst (set_status env ?t2 S_RUN msg)) = S_RUN" for msg
    using assms(1) t2
    by (simp add: set_status_without_callbacks set_status_transition_def Let_def history_add_def)
  have c: "contains_str ''frozen''
       (''Status changed to ERROR. msg: '' @ truncate_msg (frozen_msg k))" for k
  proof -
    obtain b where "truncate_msg (frozen_msg k) = ''Task seems to be '' @ ''frozen'' @ b"
      using frozen_msg_prefix by blast
    then have "''Status changed to ERROR. msg: '' @ truncate_msg (frozen_msg k) =
       (''Status changed to ERROR. msg: '' @ ''Task seems to be '') @ ''frozen'' @ b"
      by simp
    then show ?thesis using contains_str_append by metis
  qed
  show ?thesis
    using cs frozen running c by auto
qed


theorem frozen_detection_witness:
  "status task_frozen \<noteq> S_LOCKED \<and> status task_frozen \<noteq> S_ERROR
   \<and> returncode task_frozen = Some 0
   \<and> \<not> file_exists (workdir task_frozen) mpiabort_file
   \<and> map_of (workdir task_frozen) output_file = Some \<lparr>fsize = 100, mtime = 6399\<rparr>
   \<and> file_exists (workdir task_frozen) log_file
   \<and> parse env0 log_file = Inr running_report
   \<and> \<not> run_completed running_report \<and> errors running_report = []
   \<and> \<not> (file_exists (workdir task_frozen) stderr_file
           \<and> getsize (workdir task_frozen) stderr_file = 0
           \<and> file_exists (workdir task_frozen) qerr_file
           \<and> getsize (workdir task_frozen) qerr_file = 0)
   \<and> now env0 - mtime \<lparr>fsize = 100, mtime = 6399\<rparr>
         > of_int (frozen_timeout (policy (manager task_frozen)))
   \<and> snd (check_status env0 task_frozen) = Inr S_ERROR
   \<and> status (fst (check_status env0 task_frozen)) = S_ERROR
   \<and> (\<exists>m. last (history (fst (check_status env0 task_frozen))) = (INFO, m)
            \<and> contains_str ''frozen'' m)"
proof -
  have h1: "status task_frozen \<noteq> S_LOCKED" by code_simp
  have h2: "status task_frozen \<noteq> S_ERROR" by code_simp
  have h3: "returncode task_frozen = Some 0" by code_simp
  have h4: "\<not> file_exists (workdir task_frozen) mpiabort_file" by code_simp
  have h5: "map_of (workdir task_frozen) output_file = Some \<lparr>fsize = 100, mtime = 6399\<rparr>"
    by code_simp
  have h6: "file_exists (workdir task_frozen) log_file" by code_simp
  have h7: "parse env0 log_file = Inr running_report" by (simp add: env0_def)
  have h8: "\<not> run_completed running_report" by code_simp
  have h9: "errors running_report = []" by code_simp
  have h10: "\<not> (file_exists (workdir task_frozen) stderr_file
           \<and> getsize (workdir task_frozen) stderr_file = 0
           \<and> file_exists (workdir task_frozen) qerr_file
           \<and> getsize (workdir task_frozen) qerr_file = 0)" by code_simp
  have old: "now env0 - mtime \<lparr>fsize = 100, mtime = 6399\<rparr>
         > of_int (frozen_timeout (policy (manager task_frozen)))" by code_simp
  show ?thesis
    using frozen_detection [OF h1 h2 h3 h4 h5 h6 h7 h8 h9 h10] h1 h2 h3 h4 h5 h6 h7 h8 h9 h10 old
    by blast
qed

lemma alive_task_runs:
  "snd (check_status env0 task_alive) = Inr S_RUN
   \<and> status (fst (check_status env0 task_alive)) = S_RUN"
  by code_simp

text \<open>
  The claim as stated, with the age of the run log, fails: for a running task whose log
  \<^verbatim>\<open>run.log\<close> was last modified 3601 seconds ago (\<^verbatim>\<open>frozen_timeout\<close> is 3600) and whose
  main output \<^verbatim>\<open>run.abo\<close> was modified one second ago, no earlier return is taken and
  \<^verbatim>\<open>check_status\<close> sets and returns \<^verbatim>\<open>S_RUN\<close>.
\<close>

theorem stale_log_fresh_output_runs:
  "status task_stale_log = S_RUN
   \<and> returncode task_stale_log = Some 0
   \<and> \<not> file_exists (workdir task_stale_log) mpiabort_file
   \<and> parse env0 log_file = Inr running_report
   \<and> \<not> run_completed running_report \<and> errors running_report = []
   \<and> \<not> file_exists (workdir task_stale_log) stderr_file
   \<and> map_of (workdir task_stale_log) log_file = Some \<lparr>fsize = 100, mtime = 6399\<rparr>
   \<and> now env0 - mtime \<lparr>fsize = 100, mtime = 6399\<rparr>
         > of_int (frozen_timeout (policy (manager task_stale_log)))
   \<and> snd (check_status env0 task_stale_log) = Inr S_RUN
   \<and> status (fst (check_status env0 task_stale_log)) = S_RUN"
proof -
  have "status task_stale_log = S_RUN \<and> returncode task_stale_log = Some 0" by code_simp
  moreover have "\<not> file_exists (workdir task_stale_log) mpiabort_file" by code_simp
  moreover have "parse env0 log_file = Inr running_report" by (simp add: env0_def)
  moreover have "\<not> run_completed running_report \<and> errors running_report = []" by code_simp
  moreover have "\<not> file_exists (workdir task_stale_log) stderr_file" by code_simp
  moreover have "map_of (workdir task_stale_log) log_file = Some \<lparr>fsize = 100, mtime = 6399\<rparr>"
    by code_simp
  moreover have "now env0 - mtime \<lparr>fsize = 100, mtime = 6399\<rparr>
         > of_int (frozen_timeout (policy (manager task_stale_log)))" by code_simp
  moreover have "snd (check_status env0 task_stale_log) = Inr S_RUN" by code_simp
  moreover have "status (fst (check_status env0 task_stale_log)) = S_RUN" by code_simp
  ultimately show ?thesis by blast
qed

text \<open>The other way round, a fresh log does not save a task with an old main output.\<close>

lemma stale_output_fresh_log_frozen:
  "snd (check_status env0 task_stale_output) = Inr S_ERROR
   \<and> status (fst (check_status env0 task_stale_output)) = S_ERROR"
  by code_simp

section \<open>Finalization\<close>

lemma same_hook_state_refl: "same_hook_state t t"
  by (simp add: same_hook_state_def)

lemma set_status_transition_hook:
  "set_status_transition env t s m = Inr t' \<Longrightarrow> same_hook_state t' t"
  by (auto simp: set_status_transition_def same_hook_state_def Let_def history_add_def
        split: if_splits)

lemma same_hook_state_trans:
  "same_hook_state t2 t1 \<Longrightarrow> same_hook_state t1 t \<Longrightarrow> same_hook_state t2 t"
  by (simp add: same_hook_state_def)

lemma history_add_hook: "same_hook_state (history_add lvl m t) t"
  by (simp add: same_hook_state_def history_add_def)

lemma start_hook: "start env t = (t', r) \<Longrightarrow> same_hook_state t' t"
  by (auto simp: start_def same_hook_state_def Let_def history_add_def
        dest!: set_status_transition_hook split: sum.splits bool.splits if_splits)

lemma internal_restart_hook:
  assumes "internal_restart env t submit = (t', r)"
  shows "same_hook_state t' t"
proof (cases "set_status_transition env t S_READY (''Restarted on '' @ asctime env)")
  case (Inl e)
  then show ?thesis using assms by (auto simp: internal_restart_def same_hook_state_def)
next
  case (Inr t1)
  define t5 where "t5 =
     (history_add INFO (''Restarted, num_restarts '' @ str_int (num_restarts t1 + 1))
        (t1\<lparr>num_restarts := num_restarts t1 + 1\<rparr>))
     \<lparr>datetimes := TaskDateTimes_reset (now env)
         (datetimes (history_add INFO (''Restarted, num_restarts '' @ str_int (num_restarts t1 + 1))
        (t1\<lparr>num_restarts := num_restarts t1 + 1\<rparr>))),
       workdir := file_remove (workdir (history_add INFO (''Restarted, num_restarts '' @ str_int (num_restarts t1 + 1))
        (t1\<lparr>num_restarts := num_restarts t1 + 1\<rparr>))) start_lockfile\<rparr>"
  have a: "same_hook_state t1 t" using Inr by (rule set_status_transition_hook)
  have b: "same_hook_state t5 t1"
    by (simp add: t5_def same_hook_state_def history_add_def)
  have c: "same_hook_state t5 t" using b a by (rule same_hook_state_trans)
  obtain t6 r6 where st: "start env t5 = (t6, r6)" by (cases "start env t5") auto
  have d: "same_hook_state t6 t"
    using start_hook [OF st] c by (rule same_hook_state_trans)
  have e: "same_hook_state (history_add WARNING ''Restart failed'' t6) t"
    using history_add_hook d by (rule same_hook_state_trans)
  have "internal_restart env t submit =
     (if submit then
        (case r6 of Inl e \<Rightarrow> (t6, Inl e)
         | Inr fired \<Rightarrow> (if fired = 0 then (history_add WARNING ''Restart failed'' t6, Inr fired)
                          else (t6, Inr fired)))
      else (t5, Inr 0))"
    using Inr st by (simp add: internal_restart_def Let_def t5_def)
  then have "t' = t5 \<or> t' = t6 \<or> t' = history_add WARNING ''Restart failed'' t6"
    using assms by (auto split: if_splits sum.splits)
  then show ?thesis using c d e by auto
qed

lemma restart_hook:
  assumes "restart env t = (t', r)"
  shows "same_hook_state t' t"
proof -
  have "t' = t \<or> (\<exists>f. internal_restart env (history_add INFO (''Will restart from '' @ f) t) True = (t', r))
        \<or> internal_restart env t True = (t', r)"
    using assms by (auto simp: restart_def split: if_splits sum.splits option.splits)
  then show ?thesis
  proof (elim disjE exE)
    assume "t' = t"
    then show ?thesis by (simp add: same_hook_state_refl)
  next
    fix f
    assume "internal_restart env (history_add INFO (''Will restart from '' @ f) t) True = (t', r)"
    then have "same_hook_state t' (history_add INFO (''Will restart from '' @ f) t)"
      by (rule internal_restart_hook)
    then show ?thesis using history_add_hook by (rule same_hook_state_trans)
  next
    assume "internal_restart env t True = (t', r)"
    then show ?thesis by (rule internal_restart_hook)
  qed
qed

lemma Task_on_ok_cases:
  assumes "Task_on_ok env t = (t', r)"
  shows "(r = Inl OSError \<and> t' = t) \<or> (r = Inr () \<and> t' = on_ok (t\<lparr>finalized := True\<rparr>))"
  using assms by (auto simp: Task_on_ok_def fix_ofiles_def split: if_splits)

lemma hook_budget_same: "same_hook_state t' t \<Longrightarrow> hook_budget t' = hook_budget t"
  by (simp add: same_hook_state_def hook_budget_def)

lemma same_family: "same_hook_state t' t \<Longrightarrow> family t' = family t"
  by (simp add: same_hook_state_def)

lemma internal_on_ok_budget:
  assumes "internal_on_ok env t = (t', r)" "\<not> finalized t"
  shows "hook_budget t' \<le> hook_budget t \<and> family t' = family t"
proof -
  obtain t1 r1 where ok: "Task_on_ok env t = (t1, r1)" by (cases "Task_on_ok env t") auto
  note c = Task_on_ok_cases [OF ok]
  show ?thesis
  proof (cases "family t = CollinearThenNonCollinearScfTask \<and> r1 = Inr () \<and> \<not> collinear_done t")
    case False
    then have "t' = t1"
      using assms(1) ok c by (auto simp: internal_on_ok_def on_ok_def split: if_splits)
    then show ?thesis
      using c assms(2) by (auto simp: hook_budget_def on_ok_def)
  next
    case True
    define t2 where "t2 = t1\<lparr>spin_mode := ''spinor'', collinear_done := True, finalized := False\<rparr>"
    have t1: "t1 = on_ok (t\<lparr>finalized := True\<rparr>)" using c True by auto
    obtain t3 r3 where re: "restart env t2 = (t3, r3)" by (cases "restart env t2") auto
    have "t' = t3"
      using assms(1) ok True re t1
      by (auto simp: internal_on_ok_def on_ok_def t2_def split: sum.splits)
    moreover have "hook_budget t2 = hook_budget t" "family t2 = family t"
      using True assms(2) by (simp_all add: t2_def t1 on_ok_def hook_budget_def)
    moreover have "hook_budget t3 = hook_budget t2" "family t3 = family t2"
      using restart_hook [OF re] by (simp_all add: hook_budget_same same_family)
    ultimately show ?thesis by simp
  qed
qed


lemma set_status_budget:
  assumes "set_status env t s msg = (t', r)"
  shows "hook_budget t' \<le> hook_budget t \<and> family t' = family t"
proof (cases "set_status_transition env t s msg")
  case (Inl e)
  then show ?thesis using assms by (auto simp: set_status_def)
next
  case (Inr t1)
  have a: "same_hook_state t1 t" using Inr by (rule set_status_transition_hook)
  show ?thesis
  proof (cases "s = S_OK \<and> \<not> finalized t1")
    case False
    then have "same_hook_state t' t1"
      using assms Inr
      by (auto simp: set_status_def internal_on_done_def fix_ofiles_def same_hook_state_def
            Let_def split: if_splits)
    then have "same_hook_state t' t" using a by (rule same_hook_state_trans)
    then show ?thesis by (simp add: hook_budget_same same_family)
  next
    case True
    obtain t3 r3 where ok: "internal_on_ok env t1 = (t3, r3)"
      by (cases "internal_on_ok env t1") auto
    have b: "hook_budget t3 \<le> hook_budget t1 \<and> family t3 = family t1"
      using ok True by (intro internal_on_ok_budget) simp_all
    have "same_hook_state t' t3"
      using assms Inr True ok
      by (auto simp: set_status_def same_hook_state_def Let_def split: if_splits sum.splits)
    then have "hook_budget t' = hook_budget t3" "family t' = family t3"
      by (simp_all add: hook_budget_same same_family)
    then show ?thesis
      using b a by (simp add: hook_budget_same same_family)
  qed
qed

lemma set_status_calls_budget:
  "hook_budget (set_status_calls calls t) \<le> hook_budget t"
proof (induction calls arbitrary: t)
  case Nil
  show ?case by simp
next
  case (Cons c calls)
  obtain env s msg where c: "c = (env, s, msg)" by (cases c) auto
  obtain t1 r1 where st: "set_status env t s msg = (t1, r1)"
    by (cases "set_status env t s msg") auto
  have "hook_budget (set_status_calls calls t1) \<le> hook_budget t1" by (rule Cons.IH)
  moreover have "hook_budget t1 \<le> hook_budget t" using set_status_budget [OF st] by simp
  ultimately show ?case using c st by simp
qed

text \<open>
  Claim C3, as amended. However many times \<^verbatim>\<open>set_status\<close> is called on a task, with
  \<^verbatim>\<open>S_OK\<close> or any other status and in any environment, \<^verbatim>\<open>on_ok\<close> (the post-processing of
  the task class) runs at most once more if the task is not finalized, and not at all if it
  is; the one exception is a \<^verbatim>\<open>CollinearThenNonCollinearScfTask\<close> whose collinear run is
  not done, which clears \<^verbatim>\<open>finalized\<close> in its own \<^verbatim>\<open>_on_ok\<close> and so gets one more run.
\<close>

theorem finalize_hook_bounded:
  "on_ok_calls (set_status_calls calls t)
     \<le> on_ok_calls t + (if finalized t then 0 else 1)
         + (if family t = CollinearThenNonCollinearScfTask \<and> \<not> collinear_done t then 1 else 0)"
proof -
  have "on_ok_calls (set_status_calls calls t) \<le> hook_budget (set_status_calls calls t)"
    by (simp add: hook_budget_def)
  also have "\<dots> \<le> hook_budget t" by (rule set_status_calls_budget)
  finally show ?thesis by (simp add: hook_budget_def)
qed

theorem finalize_hook_bounded_witness:
  "on_ok_calls (set_status_calls [(env0, S_OK, ''first''), (env0, S_OK, ''second'')] task0) = 1
   \<and> on_ok_calls (set_status_calls [(env0, S_OK, ''first''), (env0, S_OK, ''second'')] task0)
     \<le> on_ok_calls task0 + (if finalized task0 then 0 else 1)
         + (if family task0 = CollinearThenNonCollinearScfTask \<and> \<not> collinear_done task0
            then 1 else 0)"
proof -
  have "on_ok_calls (set_status_calls [(env0, S_OK, ''first''), (env0, S_OK, ''second'')] task0) = 1"
    by code_simp
  then show ?thesis
    using finalize_hook_bounded [of "[(env0, S_OK, ''first''), (env0, S_OK, ''second'')]" task0]
    by simp
qed

text \<open>
  The claim as stated fails for \<^verbatim>\<open>CollinearThenNonCollinearScfTask\<close>: the first transition
  to \<^verbatim>\<open>S_OK\<close> runs \<^verbatim>\<open>on_ok\<close>, clears \<^verbatim>\<open>finalized\<close> and restarts the task with spinors;
  the second transition to \<^verbatim>\<open>S_OK\<close> runs \<^verbatim>\<open>on_ok\<close> again.
\<close>

theorem finalize_hook_runs_twice:
  "on_ok_calls task_collinear = 0
   \<and> on_ok_calls
        (set_status_calls [(env_wfk, S_OK, ''collinear run''), (env_wfk, S_OK, ''spinor run'')]
           task_collinear) = 2"
  by code_simp

section \<open>Fixing a memory cancellation\<close>

lemma int_of_str_error: "int_of_str s = Inl e \<Longrightarrow> e = ValueError"
  by (auto simp: int_of_str_def split: list.splits if_splits)

lemma set_status_transition_error: "set_status_transition env t s m = Inl e \<Longrightarrow> e = RuntimeError"
  by (auto simp: set_status_transition_def Let_def split: if_splits)

lemma internal_restart_False_error:
  "snd (internal_restart env t False) = Inl e \<Longrightarrow> e = RuntimeError"
  by (auto simp: internal_restart_def Let_def dest: set_status_transition_error
        split: sum.splits)

lemma reset_from_scratch_error:
  "snd (reset_from_scratch env t) = Inl e \<Longrightarrow> e \<in> {OSError, ValueError, RuntimeError}"
  by (auto simp: reset_from_scratch_def Let_def
        dest: int_of_str_error internal_restart_False_error
        split: option.splits sum.splits)

text \<open>
  The handler \<^verbatim>\<open>except DecreaseDemandsError\<close> of the memory branch is the only way to its
  \<^verbatim>\<open>S_ERROR\<close> ending, and nothing in its \<^verbatim>\<open>try\<close> block raises that exception.
\<close>

lemma reset_and_ready_never_declines:
  "snd (reset_and_ready env t msg) \<noteq> Inl DecreaseDemandsError"
proof
  assume a: "snd (reset_and_ready env t msg) = Inl DecreaseDemandsError"
  obtain t1 r1 where rs: "reset_from_scratch env t = (t1, r1)"
    by (cases "reset_from_scratch env t") auto
  show False
  proof (cases r1)
    case (Inl e)
    then have "e = DecreaseDemandsError" using a rs by (simp add: reset_and_ready_def)
    moreover have "e \<in> {OSError, ValueError, RuntimeError}"
      using reset_from_scratch_error [of env t e] rs Inl by simp
    ultimately show False by simp
  next
    case (Inr fired)
    then have "snd (set_status env t1 S_READY msg) = Inl DecreaseDemandsError"
      using a rs by (auto simp: reset_and_ready_def split: prod.splits sum.splits)
    then have "set_status_transition env t1 S_READY msg = Inl DecreaseDemandsError"
      by (auto simp: set_status_without_callbacks split: sum.splits)
    then show False using set_status_transition_error by fastforce
  qed
qed

text \<open>
  Claim C6. The claim says that the task ends in \<^verbatim>\<open>S_ERROR\<close> when all three remedies
  fail, and that the message recorded when the increase of the memory succeeds contains
  "increased mem". For a task of class \<^verbatim>\<open>AbinitTask\<close> with \<^verbatim>\<open>mem_scales\<close> and one
  \<^verbatim>\<open>MemoryCancelError\<close>: when the adapter can give neither cores nor memory and
  \<^verbatim>\<open>reduce_memory_demand\<close> returns \<^verbatim>\<open>False\<close>, \<^verbatim>\<open>fix_queue_critical\<close> returns with the task
  in \<^verbatim>\<open>S_READY\<close>; when the adapter gives more memory, the task ends in \<^verbatim>\<open>S_READY\<close> with
  one restart counted and no entry of its history contains "increased mem".
\<close>

theorem memory_cancel_fix_diverges:
  "mem_scales task_memory_cancelled
   \<and> queue_errors task_memory_cancelled = [MemoryCancelError]
   \<and> increase_ncpus env_no_more = Inl ManagerIncreaseError
   \<and> increase_mem env_no_more = Inl ManagerIncreaseError
   \<and> snd (reduce_memory_demand task_memory_cancelled) = False
   \<and> status (fst (fix_queue_critical env_no_more task_memory_cancelled)) = S_READY
   \<and> snd (fix_queue_critical env_no_more task_memory_cancelled) = Inr RetNone
   \<and> increase_ncpus env0 = Inl ManagerIncreaseError
   \<and> increase_mem env0 = Inr ()
   \<and> status (fst (fix_queue_critical env0 task_memory_cancelled)) = S_READY
   \<and> num_restarts (fst (fix_queue_critical env0 task_memory_cancelled)) = 1
   \<and> \<not> mentions ''increased mem''
         (history (fst (fix_queue_critical env0 task_memory_cancelled)))"
proof -
  have "mem_scales task_memory_cancelled
   \<and> queue_errors task_memory_cancelled = [MemoryCancelError]
   \<and> increase_ncpus env_no_more = Inl ManagerIncreaseError
   \<and> increase_mem env_no_more = Inl ManagerIncreaseError
   \<and> snd (reduce_memory_demand task_memory_cancelled) = False" by code_simp
  moreover have "status (fst (fix_queue_critical env_no_more task_memory_cancelled)) = S_READY"
    by code_simp
  moreover have "snd (fix_queue_critical env_no_more task_memory_cancelled) = Inr RetNone"
    by code_simp
  moreover have "increase_ncpus env0 = Inl ManagerIncreaseError \<and> increase_mem env0 = Inr ()"
    by code_simp
  moreover have "status (fst (fix_queue_critical env0 task_memory_cancelled)) = S_READY
     \<and> num_restarts (fst (fix_queue_critical env0 task_memory_cancelled)) = 1" by code_simp
  moreover have "\<not> mentions ''increased mem''
         (history (fst (fix_queue_critical env0 task_memory_cancelled)))" by code_simp
  ultimately show ?thesis by blast
qed

lemma memory_cancel_fix_history:
  "history (fst (fix_queue_critical env0 task_memory_cancelled)) =
    [(INFO, ''fixing queue critical''),
     (INFO, ''fixing: MemoryCancelError''),
     (WARNING, ''increasing ncpus failed''),
     (INFO, ''Status changed to READY. msg: Restarted on Wed Nov  4 12:00:00 2026''),
     (INFO, ''Restarted, num_restarts 1'')]"
  by code_simp

section \<open>Locked tasks\<close>

lemma same_lock_trans: "same_lock t2 t1 \<Longrightarrow> same_lock t1 t \<Longrightarrow> same_lock t2 t"
  by (simp add: same_lock_def)

lemma history_add_lock: "same_lock (history_add lvl m t) t"
  by (simp add: same_lock_def history_add_def)

lemma set_status_transition_lock:
  "set_status_transition env t s m = Inr t' \<Longrightarrow> same_lock t' t"
  by (auto simp: set_status_transition_def same_lock_def Let_def history_add_def
        split: if_splits)

lemma start_lock: "start env t = (t', r) \<Longrightarrow> same_lock t' t"
  by (auto simp: start_def same_lock_def Let_def history_add_def
        dest!: set_status_transition_lock split: sum.splits bool.splits if_splits)

lemma internal_restart_lock:
  assumes "internal_restart env t submit = (t', r)"
  shows "same_lock t' t"
proof (cases "set_status_transition env t S_READY (''Restarted on '' @ asctime env)")
  case (Inl e)
  then show ?thesis using assms by (auto simp: internal_restart_def same_lock_def)
next
  case (Inr t1)
  define t5 where "t5 =
     (history_add INFO (''Restarted, num_restarts '' @ str_int (num_restarts t1 + 1))
        (t1\<lparr>num_restarts := num_restarts t1 + 1\<rparr>))
     \<lparr>datetimes := TaskDateTimes_reset (now env)
         (datetimes (history_add INFO (''Restarted, num_restarts '' @ str_int (num_restarts t1 + 1))
        (t1\<lparr>num_restarts := num_restarts t1 + 1\<rparr>))),
       workdir := file_remove (workdir (history_add INFO (''Restarted, num_restarts '' @ str_int (num_restarts t1 + 1))
        (t1\<lparr>num_restarts := num_restarts t1 + 1\<rparr>))) start_lockfile\<rparr>"
  have a: "same_lock t1 t" using Inr by (rule set_status_transition_lock)
  have b: "same_lock t5 t1"
    by (simp add: t5_def same_lock_def history_add_def)
  have c: "same_lock t5 t" using b a by (rule same_lock_trans)
  obtain t6 r6 where st: "start env t5 = (t6, r6)" by (cases "start env t5") auto
  have d: "same_lock t6 t"
    using start_lock [OF st] c by (rule same_lock_trans)
  have e: "same_lock (history_add WARNING ''Restart failed'' t6) t"
    using history_add_lock d by (rule same_lock_trans)
  have "internal_restart env t submit =
     (if submit then
        (case r6 of Inl e \<Rightarrow> (t6, Inl e)
         | Inr fired \<Rightarrow> (if fired = 0 then (history_add WARNING ''Restart failed'' t6, Inr fired)
                          else (t6, Inr fired)))
      else (t5, Inr 0))"
    using Inr st by (simp add: internal_restart_def Let_def t5_def)
  then have "t' = t5 \<or> t' = t6 \<or> t' = history_add WARNING ''Restart failed'' t6"
    using assms by (auto split: if_splits sum.splits)
  then show ?thesis using c d e by auto
qed

lemma restart_lock:
  assumes "restart env t = (t', r)"
  shows "same_lock t' t"
proof -
  have "t' = t \<or> (\<exists>f. internal_restart env (history_add INFO (''Will restart from '' @ f) t) True = (t', r))
        \<or> internal_restart env t True = (t', r)"
    using assms by (auto simp: restart_def split: if_splits sum.splits option.splits)
  then show ?thesis
  proof (elim disjE exE)
    assume "t' = t"
    then show ?thesis by (simp add: same_lock_def)
  next
    fix f
    assume "internal_restart env (history_add INFO (''Will restart from '' @ f) t) True = (t', r)"
    then have "same_lock t' (history_add INFO (''Will restart from '' @ f) t)"
      by (rule internal_restart_lock)
    then show ?thesis using history_add_lock by (rule same_lock_trans)
  next
    assume "internal_restart env t True = (t', r)"
    then show ?thesis by (rule internal_restart_lock)
  qed
qed

lemma internal_on_ok_lock:
  assumes "internal_on_ok env t = (t', r)"
  shows "same_lock t' t"
proof -
  obtain t1 r1 where ok: "Task_on_ok env t = (t1, r1)" by (cases "Task_on_ok env t") auto
  note c = Task_on_ok_cases [OF ok]
  have t1: "same_lock t1 t" using c by (auto simp: same_lock_def on_ok_def)
  define t2 where "t2 = t1\<lparr>spin_mode := ''spinor'', collinear_done := True, finalized := False\<rparr>"
  have t2: "same_lock t2 t" using t1 by (simp add: t2_def same_lock_def)
  obtain t3 r3 where re: "restart env t2 = (t3, r3)" by (cases "restart env t2") auto
  have t3: "same_lock t3 t" using restart_lock [OF re] t2 by (rule same_lock_trans)
  have "t' = t1 \<or> t' = t3"
    using assms ok re
    by (auto simp: internal_on_ok_def t2_def split: if_splits sum.splits)
  then show ?thesis using t1 t3 by auto
qed

lemma set_status_lock:
  assumes "set_status env t s msg = (t', r)"
  shows "same_lock t' t"
proof (cases "set_status_transition env t s msg")
  case (Inl e)
  then show ?thesis using assms by (auto simp: set_status_def same_lock_def)
next
  case (Inr t1)
  have a: "same_lock t1 t" using Inr by (rule set_status_transition_lock)
  obtain t3 r3 where ok: "internal_on_ok env t1 = (t3, r3)"
    by (cases "internal_on_ok env t1") auto
  have b: "same_lock t3 t" using internal_on_ok_lock [OF ok] a by (rule same_lock_trans)
  have "same_lock t' t1 \<or> same_lock t' t3"
    using assms Inr ok
    by (auto simp: set_status_def internal_on_done_def fix_ofiles_def same_lock_def
          Let_def split: if_splits sum.splits)
  then show ?thesis using a b same_lock_trans by blast
qed


lemma set_status_lock':
  "set_status env t1 s msg = (t', r) \<Longrightarrow> same_lock t1 t \<Longrightarrow> same_lock t' t"
  using set_status_lock same_lock_trans by blast

lemma parse_log_and_abort_lock:
  "parse_log_and_abort env t = (t', r) \<Longrightarrow> same_lock t' t"
  by (auto simp: parse_log_and_abort_def same_lock_def Let_def history_add_def
        split: sum.splits if_splits)

lemma get_event_report_lock:
  assumes "get_event_report env t = (t', r)"
  shows "same_lock t' t"
proof -
  obtain t1 r1 where p: "parse_log_and_abort env t = (t1, r1)"
    by (cases "parse_log_and_abort env t") auto
  have a: "same_lock t1 t" using p by (rule parse_log_and_abort_lock)
  obtain t2 r2 where st: "set_status env t1 S_ABICRITICAL
        (log_file @ '': Exception while parsing ABINIT events'') = (t2, r2)"
    by (cases "set_status env t1 S_ABICRITICAL
        (log_file @ '': Exception while parsing ABINIT events'')") auto
  have b: "same_lock t2 t" using st a by (rule set_status_lock')
  have "t' = t \<or> t' = t1 \<or> t' = t2"
    using assms p st
    by (auto simp: get_event_report_def split: if_splits sum.splits)
  then show ?thesis using a b by (auto simp: same_lock_def)
qed

lemma record_abi_errors_status: "status (record_abi_errors errs t) = status t"
proof -
  have "status (fold (\<lambda>ev t'. (history_add DEBUG (ev_text ev) t')\<lparr>abi_errors := abi_errors t' @ [ev]\<rparr>) errs t)
        = status t"
    by (induction errs arbitrary: t) (simp_all add: history_add_def)
  then show ?thesis by (simp add: record_abi_errors_def)
qed

lemma check_report_lock:
  assumes "check_report env t err_msg qerr_info = (t', r)"
  shows "same_lock t' t"
proof -
  obtain t1 r1 where g: "get_event_report env t = (t1, r1)"
    by (cases "get_event_report env t") auto
  have a: "(status t1 = S_LOCKED) = (status t = S_LOCKED)"
    using get_event_report_lock [OF g] by (simp add: same_lock_def)
  have "(status t' = S_LOCKED) = (status t1 = S_LOCKED)"
    using assms g
    by (auto simp: check_report_def Let_def history_add_def record_abi_errors_status
          dest!: set_status_lock [unfolded same_lock_def]
          split: sum.splits option.splits if_splits prod.splits)
  then show ?thesis using a by (simp add: same_lock_def)
qed

lemma check_status_lock:
  assumes "check_status env t = (t', r)"
  shows "same_lock t' t"
proof -
  obtain t1 r1 where g: "check_report env t (getsize (workdir t) stderr_file \<noteq> 0)
       (getsize (workdir t) qerr_file \<noteq> 0) = (t1, r1)"
    by (cases "check_report env t (getsize (workdir t) stderr_file \<noteq> 0)
       (getsize (workdir t) qerr_file \<noteq> 0)") auto
  have a: "(status t1 = S_LOCKED) = (status t = S_LOCKED)"
    using check_report_lock [OF g] by (simp add: same_lock_def)
  have "(status t' = S_LOCKED) = (status t = S_LOCKED)"
    using assms g a
    by (auto simp: check_status_def Let_def history_add_def
          dest!: set_status_lock [unfolded same_lock_def]
          split: sum.splits option.splits if_splits prod.splits)
  then show ?thesis by (simp add: same_lock_def)
qed


lemma reset_from_scratch_lock:
  assumes "reset_from_scratch env t = (t', r)"
  shows "same_lock t' t"
proof -
  have m: "status (move_file env n f x) = status x" for n f x
    by (simp add: move_file_def history_add_def split: option.splits)
  have "t' = t \<or> (\<exists>tx. internal_restart env tx False = (t', r) \<and> status tx = status t)"
    using assms
    by (auto simp: reset_from_scratch_def Let_def m split: option.splits sum.splits)
  then show ?thesis
    using internal_restart_lock by (auto simp: same_lock_def)
qed

lemma set_status_locked:
  "status t = S_LOCKED \<or> new_status = S_LOCKED \<Longrightarrow>
   set_status env t new_status msg = (t, Inl RuntimeError)"
  by (auto simp: set_status_def set_status_transition_def Let_def)

lemma check_status_fresh:
  assumes "returncode t = Some 0"
    "\<not> file_exists (workdir t) mpiabort_file" "\<not> file_exists (workdir t) output_file"
    "\<not> file_exists (workdir t) stderr_file" "\<not> file_exists (workdir t) qerr_file"
  shows "check_status env t = (t, Inr (status t))"
  using assms by (simp add: check_status_def Let_def)

text \<open>
  Claim C2, as amended. For a locked task every call of \<^verbatim>\<open>set_status\<close> raises
  \<^verbatim>\<open>RuntimeError\<close> and leaves the task as it is, and so does \<^verbatim>\<open>set_status\<close> with the target
  \<^verbatim>\<open>S_LOCKED\<close> from any status. \<^verbatim>\<open>unlock\<close> raises for a task that is not locked; for a
  locked task it sets \<^verbatim>\<open>S_READY\<close>, which is the status on return when
  \<^verbatim>\<open>check_status=False\<close> is passed or when the task has left no trace of a run (return code
  0, no abort, output, stderr or queue stderr file); otherwise the status on return is the
  one that \<^verbatim>\<open>check_status\<close> derives from the task in \<^verbatim>\<open>S_READY\<close>, never \<^verbatim>\<open>S_LOCKED\<close>.
  \<^verbatim>\<open>lock\<close> locks a task in \<^verbatim>\<open>S_INIT\<close> and raises otherwise. \<^verbatim>\<open>set_status\<close>,
  \<^verbatim>\<open>check_status\<close>, \<^verbatim>\<open>start\<close>, \<^verbatim>\<open>restart\<close> and \<^verbatim>\<open>reset_from_scratch\<close> leave a locked
  task locked and a task that is not locked not locked.
\<close>

theorem lock_rules:
  "(status t = S_LOCKED \<longrightarrow> set_status env t new_status msg = (t, Inl RuntimeError))
   \<and> set_status env t S_LOCKED msg = (t, Inl RuntimeError)
   \<and> (status t = S_LOCKED \<longrightarrow>
        unlock env t node False =
          (history_add INFO (''Unlocked by '' @ node) (t\<lparr>status := S_READY\<rparr>), Inr ()))
   \<and> (status t = S_LOCKED \<and> returncode t = Some 0
        \<and> \<not> file_exists (workdir t) mpiabort_file \<and> \<not> file_exists (workdir t) output_file
        \<and> \<not> file_exists (workdir t) stderr_file \<and> \<not> file_exists (workdir t) qerr_file \<longrightarrow>
        unlock env t node True =
          (history_add INFO (''Unlocked by '' @ node) (t\<lparr>status := S_READY\<rparr>), Inr ()))
   \<and> (status t = S_LOCKED \<longrightarrow>
        status (fst (unlock env t node True)) =
          status (fst (check_status env (t\<lparr>status := S_READY\<rparr>)))
        \<and> status (fst (unlock env t node True)) \<noteq> S_LOCKED)
   \<and> (status t \<noteq> S_LOCKED \<longrightarrow> unlock env t node flag = (t, Inl RuntimeError))
   \<and> (status t = S_INIT \<longrightarrow>
        status (fst (lock t node)) = S_LOCKED \<and> snd (lock t node) = Inr ())
   \<and> (status t \<noteq> S_INIT \<longrightarrow> lock t node = (t, Inl ValueError))
   \<and> (status (fst (set_status env t new_status msg)) = S_LOCKED) = (status t = S_LOCKED)
   \<and> (status (fst (check_status env t)) = S_LOCKED) = (status t = S_LOCKED)
   \<and> (status (fst (start env t)) = S_LOCKED) = (status t = S_LOCKED)
   \<and> (status (fst (restart env t)) = S_LOCKED) = (status t = S_LOCKED)
   \<and> (status (fst (reset_from_scratch env t)) = S_LOCKED) = (status t = S_LOCKED)"
proof -
  have p1: "status t = S_LOCKED \<longrightarrow> set_status env t new_status msg = (t, Inl RuntimeError)"
    by (simp add: set_status_locked)
  have p2: "set_status env t S_LOCKED msg = (t, Inl RuntimeError)"
    by (simp add: set_status_locked)
  have p3: "status t = S_LOCKED \<longrightarrow>
        unlock env t node False =
          (history_add INFO (''Unlocked by '' @ node) (t\<lparr>status := S_READY\<rparr>), Inr ())"
    by (simp add: unlock_def)
  have p4: "status t = S_LOCKED \<and> returncode t = Some 0
        \<and> \<not> file_exists (workdir t) mpiabort_file \<and> \<not> file_exists (workdir t) output_file
        \<and> \<not> file_exists (workdir t) stderr_file \<and> \<not> file_exists (workdir t) qerr_file \<longrightarrow>
        unlock env t node True =
          (history_add INFO (''Unlocked by '' @ node) (t\<lparr>status := S_READY\<rparr>), Inr ())"
    by (simp add: unlock_def check_status_fresh)
  have p5: "status t = S_LOCKED \<longrightarrow>
        status (fst (unlock env t node True)) =
          status (fst (check_status env (t\<lparr>status := S_READY\<rparr>)))
        \<and> status (fst (unlock env t node True)) \<noteq> S_LOCKED"
  proof
    assume l: "status t = S_LOCKED"
    obtain t2 r2 where cs: "check_status env (t\<lparr>status := S_READY\<rparr>) = (t2, r2)"
      by (cases "check_status env (t\<lparr>status := S_READY\<rparr>)") auto
    have "status t2 \<noteq> S_LOCKED"
      using check_status_lock [OF cs] by (simp add: same_lock_def)
    moreover have "status (fst (unlock env t node True)) = status t2"
      using l cs by (simp add: unlock_def history_add_def split: sum.splits)
    ultimately show "status (fst (unlock env t node True)) =
          status (fst (check_status env (t\<lparr>status := S_READY\<rparr>)))
        \<and> status (fst (unlock env t node True)) \<noteq> S_LOCKED"
      using cs by simp
  qed
  have p6: "status t \<noteq> S_LOCKED \<longrightarrow> unlock env t node flag = (t, Inl RuntimeError)"
    by (simp add: unlock_def)
  have p7: "status t = S_INIT \<longrightarrow>
        status (fst (lock t node)) = S_LOCKED \<and> snd (lock t node) = Inr ()"
    by (simp add: lock_def history_add_def)
  have p8: "status t \<noteq> S_INIT \<longrightarrow> lock t node = (t, Inl ValueError)"
    by (simp add: lock_def)
  have p9: "(status (fst (set_status env t new_status msg)) = S_LOCKED) = (status t = S_LOCKED)"
    using set_status_lock [of env t new_status msg] by (simp add: same_lock_def prod_eq_iff)
  have p10: "(status (fst (check_status env t)) = S_LOCKED) = (status t = S_LOCKED)"
    using check_status_lock [of env t] by (simp add: same_lock_def prod_eq_iff)
  have p11: "(status (fst (start env t)) = S_LOCKED) = (status t = S_LOCKED)"
    using start_lock [of env t] by (simp add: same_lock_def prod_eq_iff)
  have p12: "(status (fst (restart env t)) = S_LOCKED) = (status t = S_LOCKED)"
    using restart_lock [of env t] by (simp add: same_lock_def prod_eq_iff)
  have p13: "(status (fst (reset_from_scratch env t)) = S_LOCKED) = (status t = S_LOCKED)"
    using reset_from_scratch_lock [of env t] by (simp add: same_lock_def prod_eq_iff)
  show ?thesis
    using p1 p2 p3 p4 p5 p6 p7 p8 p9 p10 p11 p12 p13 by blast
qed

text \<open>
  The claim as stated fails where it says that the status is \<^verbatim>\<open>S_READY\<close> after \<^verbatim>\<open>unlock\<close>:
  \<^verbatim>\<open>unlock\<close> calls \<^verbatim>\<open>check_status\<close> by default, and for a locked task with an abort file in
  its working directory the status after \<^verbatim>\<open>unlock\<close> is \<^verbatim>\<open>S_ABICRITICAL\<close>.
\<close>

theorem unlock_then_abort_file:
  "status task_locked_abort = S_LOCKED
   \<and> status (fst (unlock env0 task_locked_abort ''node'' True)) = S_ABICRITICAL
   \<and> snd (unlock env0 task_locked_abort ''node'' True) = Inr ()"
  by code_simp


theorem lock_rules_witness:
  "status task_locked = S_LOCKED
   \<and> set_status env0 task_locked S_RUN ''go'' = (task_locked, Inl RuntimeError)
   \<and> returncode task_locked = Some 0
   \<and> \<not> file_exists (workdir task_locked) mpiabort_file
   \<and> \<not> file_exists (workdir task_locked) output_file
   \<and> \<not> file_exists (workdir task_locked) stderr_file
   \<and> \<not> file_exists (workdir task_locked) qerr_file
   \<and> unlock env0 task_locked ''node'' True =
        (history_add INFO (''Unlocked by '' @ ''node'') (task_locked\<lparr>status := S_READY\<rparr>), Inr ())
   \<and> unlock env0 task_locked ''node'' False =
        (history_add INFO (''Unlocked by '' @ ''node'') (task_locked\<lparr>status := S_READY\<rparr>), Inr ())
   \<and> status task_locked \<noteq> S_INIT
   \<and> lock task_locked ''node'' = (task_locked, Inl ValueError)
   \<and> status task0 = S_INIT \<and> status task0 \<noteq> S_LOCKED
   \<and> status (fst (lock task0 ''node'')) = S_LOCKED
   \<and> unlock env0 task0 ''node'' True = (task0, Inl RuntimeError)"
proof -
  have h1: "status task_locked = S_LOCKED" by code_simp
  have h2: "returncode task_locked = Some 0" by code_simp
  have h3: "\<not> file_exists (workdir task_locked) mpiabort_file" by code_simp
  have h4: "\<not> file_exists (workdir task_locked) output_file" by code_simp
  have h5: "\<not> file_exists (workdir task_locked) stderr_file" by code_simp
  have h6: "\<not> file_exists (workdir task_locked) qerr_file" by code_simp
  have h7: "status task_locked \<noteq> S_INIT" by code_simp
  have h8: "status task0 = S_INIT" by code_simp
  have h9: "status task0 \<noteq> S_LOCKED" by code_simp
  show ?thesis
    using lock_rules [of task_locked env0 S_RUN "''go''" "''node''" True]
      lock_rules [of task0 env0 S_RUN "''go''" "''node''" True]
      h1 h2 h3 h4 h5 h6 h7 h8 h9
    by blast
qed

end
